theory Spec2Isabelle
  imports Complex_Main "HOL-Library.AList" "HOL-Library.Sublist"
begin

section \<open>The commit generator (generator.py)\<close>

text \<open>
  The script fabricates a commit history: it draws random dates, performs a random file
  operation per date and records it with git under the fabricated date. Everything the
  script reads from outside itself (the system clock, the random number generator, the
  working tree, the exit status of git) is a field of the record \<open>world\<close>, which every
  function takes and returns. An exception is a value \<open>Inl e\<close>; the world that comes with
  it holds whatever was done before the exception was raised.
\<close>

subsection \<open>Strings\<close>

text \<open>\<open>str\<close> of an integer: decimal digits, most significant first.\<close>

definition digit_char :: "nat \<Rightarrow> char" where
  "digit_char d = ''0123456789'' ! d"

fun str_nat :: "nat \<Rightarrow> string" where
  "str_nat n = (if n < 10 then [digit_char n] else str_nat (n div 10) @ [digit_char (n mod 10)])"

declare str_nat.simps [simp del]

definition str_int :: "int \<Rightarrow> string" where
  "str_int i = (if i < 0 then ''-'' @ str_nat (nat (- i)) else str_nat (nat i))"

text \<open>The format specifications \<open>%02d\<close>, \<open>%04d\<close>, \<open>%06d\<close>: padding with zeros on the left.\<close>

definition zero_pad :: "nat \<Rightarrow> string \<Rightarrow> string" where
  "zero_pad width s = replicate (width - length s) CHR ''0'' @ s"

text \<open>
  \<open>template.format(key=val)\<close> on a template whose only braces are replacement fields
  \<open>{key}\<close>: each is replaced by \<open>val\<close>.
\<close>

function format_field :: "string \<Rightarrow> string \<Rightarrow> string \<Rightarrow> string" where
  "format_field key val [] = []"
| "format_field key val (c # cs) =
     (if prefix (''{'' @ key @ ''}'') (c # cs)
      then val @ format_field key val (drop (length key + 2) (c # cs))
      else c # format_field key val cs)"
  by pat_completeness auto
termination
  by (relation "measure (\<lambda>(key, val, s). length s)") auto

text \<open>
  The lines of a text: the segments that a line feed ends, and the segment after the last
  line feed when it is not empty.
\<close>

fun lines_from :: "string \<Rightarrow> string \<Rightarrow> string list" where
  "lines_from cur [] = (if cur = [] then [] else [cur])"
| "lines_from cur (c # cs) =
     (if c = CHR 0x0A then cur # lines_from [] cs else lines_from (cur @ [c]) cs)"

definition lines_of :: "string \<Rightarrow> string list" where
  "lines_of s = lines_from [] s"

definition line_count :: "string \<Rightarrow> nat" where
  "line_count s = length (lines_of s)"

subsection \<open>Dates and durations\<close>

text \<open>
  A naive \<open>datetime\<close> is the number of microseconds since 0001-01-01 00:00:00 (the day of
  ordinal 1). Python's arithmetic and comparison on naive datetimes are integer arithmetic
  and comparison on that count. The system clock is taken to lie well inside the years
  1 to 9999, so the OverflowError of datetime arithmetic is out of reach.
\<close>

type_synonym datetime = int

definition timedelta :: "int \<Rightarrow> int \<Rightarrow> int" where
  "timedelta days seconds = (days * 86400 + seconds) * 1000000"

text \<open>
  The calendar fields of a datetime, as the standard library computes them from the
  ordinal of the day (proleptic Gregorian calendar, cycles of 400, 100, 4 and 1 years).
\<close>

definition days_before_month :: "int list" where
  "days_before_month = [-1, 0, 31, 59, 90, 120, 151, 181, 212, 243, 273, 304, 334]"

definition days_in_month :: "int list" where
  "days_in_month = [-1, 31, 28, 31, 30, 31, 30, 31, 31, 30, 31, 30, 31]"

definition ord2ymd :: "int \<Rightarrow> int \<times> int \<times> int" where
  "ord2ymd ordinal =
     (let n = ordinal - 1;
          n400 = n div 146097; n = n mod 146097;
          year = n400 * 400 + 1;
          n100 = n div 36524; n = n mod 36524;
          n4 = n div 1461; n = n mod 1461;
          n1 = n div 365; n = n mod 365;
          year = year + n100 * 100 + n4 * 4 + n1
      in if n1 = 4 \<or> n100 = 4 then (year - 1, 12, 31)
         else
           let leapyear = (n1 = 3 \<and> (n4 \<noteq> 24 \<or> n100 = 3));
               month = (n + 50) div 32;
               preceding = days_before_month ! nat month
                           + (if month > 2 \<and> leapyear then 1 else 0)
           in if preceding > n
              then let month = month - 1;
                       preceding = preceding - (days_in_month ! nat month
                                                + (if month = 2 \<and> leapyear then 1 else 0))
                   in (year, month, n - preceding + 1)
              else (year, month, n - preceding + 1))"

definition dt_year :: "datetime \<Rightarrow> int" where
  "dt_year t = fst (ord2ymd (t div 86400000000 + 1))"

definition dt_month :: "datetime \<Rightarrow> int" where
  "dt_month t = fst (snd (ord2ymd (t div 86400000000 + 1)))"

definition dt_day :: "datetime \<Rightarrow> int" where
  "dt_day t = snd (snd (ord2ymd (t div 86400000000 + 1)))"

definition dt_hour :: "datetime \<Rightarrow> int" where
  "dt_hour t = t mod 86400000000 div 3600000000"

definition dt_minute :: "datetime \<Rightarrow> int" where
  "dt_minute t = t mod 3600000000 div 60000000"

definition dt_second :: "datetime \<Rightarrow> int" where
  "dt_second t = t mod 60000000 div 1000000"

definition dt_microsecond :: "datetime \<Rightarrow> int" where
  "dt_microsecond t = t mod 1000000"

text \<open>
  \<open>str\<close> of a datetime, as an f-string renders it: the ISO format with a space between date
  and time, the microseconds left out when they are zero.
\<close>

definition str_datetime :: "datetime \<Rightarrow> string" where
  "str_datetime t =
     zero_pad 4 (str_int (dt_year t)) @ ''-'' @ zero_pad 2 (str_int (dt_month t)) @ ''-''
     @ zero_pad 2 (str_int (dt_day t)) @ '' '' @ zero_pad 2 (str_int (dt_hour t)) @ '':''
     @ zero_pad 2 (str_int (dt_minute t)) @ '':'' @ zero_pad 2 (str_int (dt_second t))
     @ (if dt_microsecond t = 0 then [] else ''.'' @ zero_pad 6 (str_int (dt_microsecond t)))"

text \<open>
  \<open>strftime\<close> with the directives the script uses. \<open>%Y\<close> is written with four digits, which
  is what every platform prints for the years from 1000 on.
\<close>

definition directive :: "datetime \<Rightarrow> char \<Rightarrow> string" where
  "directive t c =
     (if c = CHR ''Y'' then zero_pad 4 (str_int (dt_year t))
      else if c = CHR ''m'' then zero_pad 2 (str_int (dt_month t))
      else if c = CHR ''d'' then zero_pad 2 (str_int (dt_day t))
      else if c = CHR ''H'' then zero_pad 2 (str_int (dt_hour t))
      else if c = CHR ''M'' then zero_pad 2 (str_int (dt_minute t))
      else if c = CHR ''S'' then zero_pad 2 (str_int (dt_second t))
      else [CHR ''%'', c])"

fun strftime :: "datetime \<Rightarrow> string \<Rightarrow> string" where
  "strftime t (c # d # fmt) =
     (if c = CHR ''%'' then directive t d @ strftime t fmt else c # strftime t (d # fmt))"
| "strftime t fmt = fmt"

subsection \<open>The world\<close>

datatype error =
    FileNotFoundError string
  | PermissionError string
  | IndexError
  | CalledProcessError "string list" nat

type_synonym proc_call = "string list \<times> (string \<times> string) list"

record world =
  files :: "(string \<times> string) list"
  environ :: "(string \<times> string) list"
  cwd :: string
  clock :: "nat \<Rightarrow> datetime"
  ticks :: nat
  rng :: "nat \<Rightarrow> nat"
  draws :: nat
  exits :: "nat \<Rightarrow> nat"
  launch :: "nat \<Rightarrow> error option"
  calls :: "proc_call list"
  stdout :: "string list"

text \<open>
  \<^item> \<open>files\<close>: the regular files of the working tree, path relative to the working
    directory and content, in the order in which \<open>os.walk\<close> lists them. Directories
    exist as far as paths need them and every file is writable.
  \<^item> \<open>environ\<close>, \<open>cwd\<close>: the environment and the absolute path of the working directory.
  \<^item> \<open>clock\<close>, \<open>ticks\<close>: the k-th call of \<open>datetime.now()\<close> returns \<open>clock k\<close>.
  \<^item> \<open>rng\<close>, \<open>draws\<close>: the k-th draw of the random module is computed from \<open>rng k\<close>.
  \<^item> \<open>exits\<close>, \<open>launch\<close>, \<open>calls\<close>: the k-th external process exits with status
    \<open>exits k\<close>. When the program could not be started at all (the executable is missing
    or may not be executed), the child that was to run it ends with a status that is not
    zero, and \<open>launch k\<close> is the OSError that \<open>subprocess.run\<close> raises for it; otherwise
    \<open>launch k\<close> is \<open>None\<close>. \<open>calls\<close> logs the argument vector and the environment of
    each attempt. Git changes no file of the working tree outside its own directory.
  \<^item> \<open>stdout\<close>: the texts printed, one entry per \<open>print\<close>.
\<close>

definition datetime_now :: "world \<Rightarrow> datetime \<times> world" where
  "datetime_now w = (clock w (ticks w), w\<lparr>ticks := Suc (ticks w)\<rparr>)"

definition next_raw :: "world \<Rightarrow> nat \<times> world" where
  "next_raw w = (rng w (draws w), w\<lparr>draws := Suc (draws w)\<rparr>)"

text \<open>
  \<open>random.randint(a, b)\<close> with \<open>a \<le> b\<close> (the script calls it with constants only): both
  ends are included. The raw value is reduced into the range, so that every raw value
  gives a draw in the range and every draw in the range comes from some raw value.
\<close>

definition randint :: "int \<Rightarrow> int \<Rightarrow> world \<Rightarrow> int \<times> world" where
  "randint a b w = (let (r, w') = next_raw w in (a + int (r mod nat (b - a + 1)), w'))"

text \<open>
  \<open>random.random()\<close>: a double \<open>k / 2^53\<close> with \<open>0 \<le> k < 2^53\<close>. Doubles are rationals
  and their comparison is exact. The literals \<open>0.4\<close> and \<open>0.8\<close> denote the doubles nearest
  to them.
\<close>

definition random_random :: "world \<Rightarrow> rat \<times> world" where
  "random_random w = (let (r, w') = next_raw w in (of_nat (r mod 2 ^ 53) / 2 ^ 53, w'))"

definition float_0_4 :: rat where
  "float_0_4 = 3602879701896397 / 2 ^ 53"

definition float_0_8 :: rat where
  "float_0_8 = 7205759403792794 / 2 ^ 53"

text \<open>\<open>random.choice(seq)\<close>: IndexError on an empty sequence, before any draw.\<close>

definition random_choice :: "'a list \<Rightarrow> world \<Rightarrow> (error + 'a) \<times> world" where
  "random_choice seq w =
     (if seq = [] then (Inl IndexError, w)
      else let (r, w') = next_raw w in (Inr (seq ! (r mod length seq)), w'))"

definition print_line :: "string \<Rightarrow> world \<Rightarrow> world" where
  "print_line s w = w\<lparr>stdout := stdout w @ [s]\<rparr>"

text \<open>
  Paths. The script uses two forms for a file of the working tree: the bare relative path
  (\<open>file_1234.txt\<close>) and the path that \<open>os.walk('.')\<close> builds (\<open>./file_1234.txt\<close>).
\<close>

definition resolve :: "string \<Rightarrow> string" where
  "resolve path = (if take 2 path = ''./'' then drop 2 path else path)"

text \<open>\<open>open(filename, 'w')\<close> and one \<open>write\<close>: the file is created or truncated.\<close>

definition write_file :: "string \<Rightarrow> string \<Rightarrow> world \<Rightarrow> world" where
  "write_file filename content w =
     w\<lparr>files := AList.update (resolve filename) content (files w)\<rparr>"

text \<open>
  A \<open>write\<close> to a file opened with \<open>open(filename, 'a')\<close>: append mode creates a file
  that does not exist.
\<close>

definition append_file :: "string \<Rightarrow> string \<Rightarrow> world \<Rightarrow> world" where
  "append_file filename s w =
     w\<lparr>files := AList.update (resolve filename)
        ((case map_of (files w) (resolve filename) of None \<Rightarrow> [] | Some old \<Rightarrow> old) @ s)
        (files w)\<rparr>"

definition os_remove :: "string \<Rightarrow> world \<Rightarrow> (error + unit) \<times> world" where
  "os_remove filename w =
     (case map_of (files w) (resolve filename) of
        None \<Rightarrow> (Inl (FileNotFoundError filename), w)
      | Some _ \<Rightarrow> (Inr (), w\<lparr>files := AList.delete (resolve filename) (files w)\<rparr>))"

text \<open>
  \<open>os.walk('.')\<close>, one entry per file: the directory that holds it, as walk names it
  (\<open>.\<close> for the top, \<open>./sub\<close> below), and the name of the file.
\<close>

definition walk_root :: "string \<Rightarrow> string" where
  "walk_root path =
     (if CHR ''/'' \<in> set path
      then ''./'' @ rev (tl (dropWhile (\<lambda>c. c \<noteq> CHR ''/'') (rev path)))
      else ''.'')"

definition walk_name :: "string \<Rightarrow> string" where
  "walk_name path = rev (takeWhile (\<lambda>c. c \<noteq> CHR ''/'') (rev path))"

definition os_walk :: "world \<Rightarrow> (string \<times> string) list" where
  "os_walk w = map (\<lambda>(path, content). (walk_root path, walk_name path)) (files w)"

definition os_path_join :: "string \<Rightarrow> string \<Rightarrow> string" where
  "os_path_join dirpath filename = dirpath @ ''/'' @ filename"

text \<open>
  \<open>subprocess.run(args, check=True, env=env)\<close>: the OSError of a program that could not
  be started, CalledProcessError when the program ran and its exit status is not zero.
\<close>

definition subprocess_run ::
  "string list \<Rightarrow> (string \<times> string) list \<Rightarrow> world \<Rightarrow> (error + unit) \<times> world" where
  "subprocess_run args env w =
     (let status = exits w (length (calls w));
          started = launch w (length (calls w));
          w' = w\<lparr>calls := calls w @ [(args, env)]\<rparr>
      in if status = 0 then (Inr (), w')
         else case started of
                Some e \<Rightarrow> (Inl e, w')
              | None \<Rightarrow> (Inl (CalledProcessError args status), w'))"

text \<open>
  \<open>str(e)\<close>; arguments and file names are quoted as \<open>repr\<close> quotes a string without
  quotes, backslashes and control characters.
\<close>

definition repr_str :: "string \<Rightarrow> string" where
  "repr_str s = [CHR 0x27] @ s @ [CHR 0x27]"

fun join_comma :: "string list \<Rightarrow> string" where
  "join_comma [] = []"
| "join_comma [s] = s"
| "join_comma (s # t # ss) = s @ '', '' @ join_comma (t # ss)"

definition str_error :: "error \<Rightarrow> string" where
  "str_error e =
     (case e of
        FileNotFoundError filename \<Rightarrow>
          ''[Errno 2] No such file or directory: '' @ repr_str filename
      | PermissionError filename \<Rightarrow>
          ''[Errno 13] Permission denied: '' @ repr_str filename
      | IndexError \<Rightarrow> ''Cannot choose from an empty sequence''
      | CalledProcessError args status \<Rightarrow>
          ''Command '' @ [CHR 0x27] @ ''['' @ join_comma (map repr_str args) @ '']'' @ [CHR 0x27]
          @ '' returned non-zero exit status '' @ str_nat status @ ''.'')"

subsection \<open>The script\<close>

definition NUM_COMMITS :: nat where
  "NUM_COMMITS = 5"

definition COMMIT_MESSAGES :: "string list" where
  "COMMIT_MESSAGES =
     [''Fix bug in {component}'',
      ''Add {feature} functionality'',
      ''Update {component}'',
      ''Refactor {component} code'',
      ''Improve {feature} performance'',
      ''Remove deprecated {component}'',
      ''Add tests for {feature}'',
      ''Update documentation for {component}'',
      ''Fix typo in {component}'',
      ''Optimize {feature}'',
      ''Clean up {component}'',
      ''Enhance {feature}'',
      ''Fix issue with {component}'',
      ''Implement {feature}'',
      ''Resolve merge conflicts'',
      ''Update dependencies'',
      ''Add error handling'',
      ''Improve logging'',
      ''Fix security issue'',
      ''Add configuration options'']"

definition COMPONENTS :: "string list" where
  "COMPONENTS =
     [''auth module'', ''database'', ''API'', ''UI components'', ''user service'',
      ''payment processing'', ''notification system'', ''cache layer'', ''middleware'',
      ''routing'', ''validation'', ''error handling'', ''configuration'', ''models'']"

definition FEATURES :: "string list" where
  "FEATURES =
     [''user authentication'', ''data validation'', ''caching'', ''API endpoints'',
      ''search functionality'', ''filtering'', ''pagination'', ''export feature'',
      ''notifications'', ''analytics'', ''reporting'', ''integration'']"

definition generate_random_date :: "world \<Rightarrow> datetime \<times> world" where
  "generate_random_date w =
     (let (end_date, w1) = datetime_now w;
          start_date = end_date - timedelta 365 0;
          (random_days, w2) = randint 0 365 w1;
          (random_seconds, w3) = randint 0 86400 w2
      in (start_date + timedelta random_days random_seconds, w3))"

definition generate_commit_message :: "world \<Rightarrow> (error + string) \<times> world" where
  "generate_commit_message w =
     (case random_choice COMMIT_MESSAGES w of
        (Inl e, w1) \<Rightarrow> (Inl e, w1)
      | (Inr template, w1) \<Rightarrow>
          if sublist ''{component}'' template then
            (case random_choice COMPONENTS w1 of
               (Inl e, w2) \<Rightarrow> (Inl e, w2)
             | (Inr component, w2) \<Rightarrow> (Inr (format_field ''component'' component template), w2))
          else if sublist ''{feature}'' template then
            (case random_choice FEATURES w1 of
               (Inl e, w2) \<Rightarrow> (Inl e, w2)
             | (Inr feature, w2) \<Rightarrow> (Inr (format_field ''feature'' feature template), w2))
          else (Inr template, w1))"

definition get_existing_files :: "world \<Rightarrow> string list" where
  "get_existing_files w =
     map (\<lambda>(dirpath, filename). os_path_join dirpath filename)
       (filter (\<lambda>(dirpath, filename). \<not> sublist ''.git'' dirpath) (os_walk w))"

definition create_file :: "world \<Rightarrow> string \<times> world" where
  "create_file w =
     (let (n, w1) = randint 1000 9999 w;
          filename = ''file_'' @ str_int n @ ''.txt'';
          (t, w2) = datetime_now w1;
          content = ''Content generated at '' @ str_datetime t @ [CHR 0x0A];
          (m, w3) = randint 1 1000000 w2;
          content = content @ ''Random data: '' @ str_int m @ [CHR 0x0A]
      in (filename, write_file filename content w3))"

definition modify_file :: "string \<Rightarrow> world \<Rightarrow> string \<times> world" where
  "modify_file filename w =
     (let (t, w1) = datetime_now w;
          w2 = append_file filename ([CHR 0x0A] @ ''Modified at '' @ str_datetime t @ [CHR 0x0A]) w1;
          (m, w3) = randint 1 1000000 w2;
          w4 = append_file filename (''Additional data: '' @ str_int m @ [CHR 0x0A]) w3
      in (filename, w4))"

definition delete_file :: "string \<Rightarrow> world \<Rightarrow> (error + string) \<times> world" where
  "delete_file filename w =
     (case os_remove filename w of
        (Inl e, w1) \<Rightarrow> (Inl e, w1)
      | (Inr _, w1) \<Rightarrow> (Inr filename, w1))"

definition perform_random_operation :: "world \<Rightarrow> (error + string \<times> string) \<times> world" where
  "perform_random_operation w =
     (let existing_files = get_existing_files w
      in if existing_files = [] then
           (let (filename, w1) = create_file w in (Inr (filename, ''create''), w1))
         else
           let (rand, w1) = random_random w
           in if rand < float_0_4 then
                (let (filename, w2) = create_file w1 in (Inr (filename, ''create''), w2))
              else if rand < float_0_8 then
                (case random_choice existing_files w1 of
                   (Inl e, w2) \<Rightarrow> (Inl e, w2)
                 | (Inr filename, w2) \<Rightarrow>
                     (let (r, w3) = modify_file filename w2 in (Inr (filename, ''modify''), w3)))
              else if length existing_files > 5 then
                (case random_choice existing_files w1 of
                   (Inl e, w2) \<Rightarrow> (Inl e, w2)
                 | (Inr filename, w2) \<Rightarrow>
                     (case delete_file filename w2 of
                        (Inl e, w3) \<Rightarrow> (Inl e, w3)
                      | (Inr r, w3) \<Rightarrow> (Inr (filename, ''delete''), w3)))
              else
                (case random_choice existing_files w1 of
                   (Inl e, w2) \<Rightarrow> (Inl e, w2)
                 | (Inr filename, w2) \<Rightarrow>
                     (let (r, w3) = modify_file filename w2 in (Inr (filename, ''modify''), w3))))"

definition commit_env :: "string \<Rightarrow> world \<Rightarrow> (string \<times> string) list" where
  "commit_env date_str w =
     AList.update ''GIT_COMMITTER_DATE'' date_str
       (AList.update ''GIT_AUTHOR_DATE'' date_str (environ w))"

definition create_commit ::
  "datetime \<Rightarrow> world \<Rightarrow> (error + string \<times> string \<times> string) \<times> world" where
  "create_commit commit_date w =
     (case perform_random_operation w of
        (Inl e, w1) \<Rightarrow> (Inl e, w1)
      | (Inr (filename, operation), w1) \<Rightarrow>
          (case generate_commit_message w1 of
             (Inl e, w2) \<Rightarrow> (Inl e, w2)
           | (Inr message, w2) \<Rightarrow>
               (case (if operation = ''delete''
                      then subprocess_run [''git'', ''rm'', filename] (environ w2) w2
                      else subprocess_run [''git'', ''add'', filename] (environ w2) w2) of
                  (Inl e, w3) \<Rightarrow> (Inl e, w3)
                | (Inr r, w3) \<Rightarrow>
                    (let date_str = strftime commit_date ''%Y-%m-%d %H:%M:%S'';
                         env = commit_env date_str w3
                     in case subprocess_run [''git'', ''commit'', ''-m'', message] env w3 of
                          (Inl e, w4) \<Rightarrow> (Inl e, w4)
                        | (Inr r, w4) \<Rightarrow> (Inr (message, operation, filename), w4)))))"

text \<open>The list comprehension of \<open>main\<close> and the sort that follows it.\<close>

fun generate_dates :: "nat \<Rightarrow> world \<Rightarrow> datetime list \<times> world" where
  "generate_dates 0 w = ([], w)"
| "generate_dates (Suc n) w =
     (let (d, w1) = generate_random_date w;
          (ds, w2) = generate_dates n w1
      in (d # ds, w2))"

definition sorted_dates :: "nat \<Rightarrow> world \<Rightarrow> datetime list \<times> world" where
  "sorted_dates n w = (let (dates, w1) = generate_dates n w in (sort dates, w1))"

text \<open>One pass of the loop body, with its \<open>try\<close> and \<open>except Exception\<close>.\<close>

definition iteration :: "nat \<Rightarrow> datetime \<Rightarrow> world \<Rightarrow> world" where
  "iteration i date w =
     (case create_commit date w of
        (Inr r, w1) \<Rightarrow>
          if i mod 50 = 0
          then print_line (''Progress: '' @ str_nat i @ ''/'' @ str_nat NUM_COMMITS
                           @ '' commits created'') w1
          else w1
      | (Inl e, w1) \<Rightarrow>
          print_line (''Error creating commit '' @ str_nat i @ '': '' @ str_error e) w1)"

fun run_loop :: "(nat \<times> datetime) list \<Rightarrow> world \<Rightarrow> world" where
  "run_loop [] w = w"
| "run_loop ((i, date) # rest) w = run_loop rest (iteration i date w)"

definition main :: "world \<Rightarrow> world" where
  "main w =
     (let w1 = print_line ''Git Commit Generator'' w;
          w2 = print_line (replicate 50 CHR ''='') w1;
          (dates, w3) = sorted_dates NUM_COMMITS w2;
          w4 = print_line ([CHR 0x0A] @ ''Generating '' @ str_nat NUM_COMMITS @ '' commits...'') w3;
          w5 = run_loop (enumerate 1 dates) w4;
          w6 = print_line ([CHR 0x0A, CHR 0xE2, CHR 0x9C, CHR 0x93] @ '' Successfully generated ''
                           @ str_nat NUM_COMMITS @ '' commits!'') w5;
          w7 = print_line (''Repository location: '' @ cwd w6) w6
      in print_line ([CHR 0x0A] @ ''You can view the commits with: git log --oneline'') w7)"

text \<open>
  The check mark of the summary is written as its three bytes in UTF-8;
  \<open>os.path.abspath('.')\<close> is the working directory.
\<close>

subsection \<open>Names for the steps of perform\_random\_operation\<close>

text \<open>
  The world after one draw of the random module, and the file that \<open>random.choice\<close> picks
  from the existing files with the second draw of an operation (the first draw is
  \<open>random.random()\<close>).
\<close>

definition drawn :: "world \<Rightarrow> world" where
  "drawn w = w\<lparr>draws := Suc (draws w)\<rparr>"

definition chosen_file :: "world \<Rightarrow> string" where
  "chosen_file w =
     get_existing_files w ! (rng w (Suc (draws w)) mod length (get_existing_files w))"

text \<open>
  The exception that \<open>subprocess.run\<close> raises for the k-th process, run with the argument
  vector \<open>args\<close>, when its status is not zero.
\<close>

definition process_error :: "world \<Rightarrow> nat \<Rightarrow> string list \<Rightarrow> error" where
  "process_error w k args =
     (case launch w k of Some e \<Rightarrow> e | None \<Rightarrow> CalledProcessError args (exits w k))"

subsection \<open>Sample worlds\<close>

text \<open>
  A world whose clock reads 2025-09-30 17:02:14.456141 and whose random number generator
  yields the largest day offset (365) and then the largest second offset (86400).
\<close>

definition late_world :: world where
  "late_world = \<lparr>files = [], environ = [], cwd = ''/repo'',
     clock = (\<lambda>k. 63894848534456141), ticks = 0,
     rng = (\<lambda>k. if k = 0 then 365 else 86400), draws = 0,
     exits = (\<lambda>k. 0), launch = (\<lambda>k. None), calls = [], stdout = []\<rparr>"

text \<open>
  A working tree of five files beside git's own directory, and the same tree with a sixth
  file. The first draw gives \<open>random.random()\<close> a value above 0.8, the second picks the
  file of index 3.
\<close>

definition five_world :: world where
  "five_world = \<lparr>files = [(''.git/HEAD'', ''ref''), (''a.txt'', ''a''), (''b.txt'', ''b''),
       (''c.txt'', ''c''), (''src/d.txt'', ''d''), (''e.txt'', ''e'')],
     environ = [], cwd = ''/repo'',
     clock = (\<lambda>k. 63894848534456141), ticks = 0,
     rng = (\<lambda>k. if k = 0 then 8000000000000000 else 3), draws = 0,
     exits = (\<lambda>k. 0), launch = (\<lambda>k. None), calls = [], stdout = []\<rparr>"

definition six_world :: world where
  "six_world = five_world\<lparr>files := files five_world @ [(''f.txt'', ''f'')]\<rparr>"

text \<open>A world whose clock stands still and whose random number generator yields 0.\<close>

definition frozen_world :: world where
  "frozen_world = late_world\<lparr>rng := (\<lambda>k. 0)\<rparr>"

text \<open>
  What a step leaves alone when it starts no process and prints nothing: the working
  directory, the environment, the clock, the random number generator and the outcomes of
  processes as functions, the log of processes and the output.
\<close>

definition quiet :: "world \<Rightarrow> world \<Rightarrow> bool" where
  "quiet w w' =
     (cwd w' = cwd w \<and> environ w' = environ w \<and> clock w' = clock w \<and> rng w' = rng w
      \<and> exits w' = exits w \<and> launch w' = launch w \<and> calls w' = calls w
      \<and> stdout w' = stdout w)"

text \<open>The tree of five files, with a git that fails at every call.\<close>

definition failing_world :: world where
  "failing_world = five_world\<lparr>exits := (\<lambda>k. 1)\<rparr>"

text \<open>The text that the handler of the loop prints for iteration \<open>i\<close> and exception \<open>e\<close>.\<close>

definition error_line :: "nat \<Rightarrow> error \<Rightarrow> string" where
  "error_line i e = ''Error creating commit '' @ str_nat i @ '': '' @ str_error e"

text \<open>
  What \<open>main\<close> prints before the loop and after it (the count is the constant
  \<open>NUM_COMMITS\<close>, the directory is the working directory), and the part of \<open>main\<close> that
  comes before the loop: the state in which the loop starts and the numbered dates it
  runs over.
\<close>

definition opening_lines :: "string list" where
  "opening_lines =
     [''Git Commit Generator'', replicate 50 CHR ''='', CHR 0x0A # ''Generating 5 commits...'']"

definition summary_lines :: "string \<Rightarrow> string list" where
  "summary_lines dir =
     [[CHR 0x0A, CHR 0xE2, CHR 0x9C, CHR 0x93] @ '' Successfully generated 5 commits!'',
      ''Repository location: '' @ dir,
      CHR 0x0A # ''You can view the commits with: git log --oneline'']"

definition before_loop :: "world \<Rightarrow> (nat \<times> datetime) list \<times> world" where
  "before_loop w =
     (let w1 = print_line ''Git Commit Generator'' w;
          w2 = print_line (replicate 50 CHR ''='') w1;
          (dates, w3) = sorted_dates NUM_COMMITS w2;
          w4 = print_line ([CHR 0x0A] @ ''Generating '' @ str_nat NUM_COMMITS @ '' commits...'') w3
      in (enumerate 1 dates, w4))"





text \<open>
  A working tree that already holds a file under the name that the next \<open>create_file\<close>
  draws: the raw value 365 gives \<open>file_1365.txt\<close>.
\<close>

definition clash_world :: world where
  "clash_world = late_world\<lparr>files := [(''file_1365.txt'', ''kept notes'')]\<rparr>"

text \<open>
  The world that \<open>create_file\<close> leaves when it runs in the late world: the tree holds the
  one file it wrote.
\<close>

definition created_world :: world where
  "created_world = snd (create_file late_world)"

section \<open>Properties\<close>

lemmas prim_defs = datetime_now_def next_raw_def randint_def random_random_def
  random_choice_def print_line_def write_file_def append_file_def os_remove_def
  subprocess_run_def

subsection \<open>Dates\<close>

lemma randint_range:
  assumes "a \<le> b"
  shows "a \<le> fst (randint a b w) \<and> fst (randint a b w) \<le> b"
proof -
  have "0 < nat (b - a + 1)" using assms by simp
  then have "int (rng w (draws w) mod nat (b - a + 1)) < int (nat (b - a + 1))"
    by (metis mod_less_divisor of_nat_less_iff)
  then show ?thesis using assms
    by (simp add: randint_def next_raw_def Let_def)
qed

text \<open>
  What does hold of every date drawn: it lies between the start of the window and one day
  after the clock reading.
\<close>

lemma generate_random_date_bounds:
  "clock w (ticks w) - timedelta 365 0 \<le> fst (generate_random_date w)
   \<and> fst (generate_random_date w) \<le> clock w (ticks w) + timedelta 1 0"
proof -
  let ?w1 = "snd (datetime_now w)"
  let ?w2 = "snd (randint 0 365 ?w1)"
  have d: "0 \<le> fst (randint 0 365 ?w1) \<and> fst (randint 0 365 ?w1) \<le> 365"
    by (rule randint_range) simp
  have s: "0 \<le> fst (randint 0 86400 ?w2) \<and> fst (randint 0 86400 ?w2) \<le> 86400"
    by (rule randint_range) simp
  have "fst (generate_random_date w)
        = clock w (ticks w) - timedelta 365 0
          + timedelta (fst (randint 0 365 ?w1)) (fst (randint 0 86400 ?w2))"
    by (simp add: generate_random_date_def datetime_now_def Let_def split: prod.splits)
  with d s show ?thesis by (simp add: timedelta_def)
qed

text \<open>
  C1 (every date returned lies in the 365 days that end now): with the largest offsets
  the date returned is one day after the clock reading taken in the same call, so it
  does not lie in the last year.
\<close>

theorem generate_random_date_future:
  "fst (generate_random_date late_world) = clock late_world 0 + timedelta 1 0
   \<and> \<not> fst (generate_random_date late_world) \<le> clock late_world 0"
  by (simp add: generate_random_date_def datetime_now_def randint_def next_raw_def
      timedelta_def late_world_def Let_def)

subsection \<open>Draws, paths and files\<close>

lemma float_0_4_cmp: "(of_nat k / 2 ^ 53 < float_0_4) = ((of_nat k :: rat) / 2 ^ 53 < 2 / 5)"
proof -
  have "(of_nat k / 2 ^ 53 < float_0_4) = (k < 3602879701896397)"
    by (simp add: float_0_4_def divide_less_cancel)
  also have "\<dots> = (5 * k < 18014398509481984)" by arith
  also have "\<dots> = ((of_nat (5 * k) :: rat) < 18014398509481984)"
    by (simp only: of_nat_less_numeral_iff)
  also have "\<dots> = ((of_nat k :: rat) / 2 ^ 53 < 2 / 5)"
    by (simp add: field_simps)
  finally show ?thesis .
qed

lemma float_0_8_cmp: "(of_nat k / 2 ^ 53 < float_0_8) = ((of_nat k :: rat) / 2 ^ 53 < 4 / 5)"
proof -
  have "(of_nat k / 2 ^ 53 < float_0_8) = (k < 7205759403792794)"
    by (simp add: float_0_8_def divide_less_cancel)
  also have "\<dots> = (5 * k < 36028797018963968)" by arith
  also have "\<dots> = ((of_nat (5 * k) :: rat) < 36028797018963968)"
    by (simp only: of_nat_less_numeral_iff)
  also have "\<dots> = ((of_nat k :: rat) / 2 ^ 53 < 4 / 5)"
    by (simp add: field_simps)
  finally show ?thesis .
qed

lemma random_random_unit: "0 \<le> fst (random_random w) \<and> fst (random_random w) < 1"
proof -
  have "rng w (draws w) mod 2 ^ 53 < (2::nat) ^ 53" by simp
  then have "(of_nat (rng w (draws w) mod 2 ^ 53) :: rat) < of_nat (2 ^ 53)"
    by (simp only: of_nat_less_iff)
  then show ?thesis
    by (simp add: random_random_def next_raw_def)
qed

lemma walk_join:
  "os_path_join (walk_root path) (walk_name path) = CHR ''.'' # CHR ''/'' # path"
proof (cases "CHR ''/'' \<in> set path")
  case False
  then have tw: "takeWhile (\<lambda>c. c \<noteq> CHR ''/'') (rev path) = rev path"
    by (auto simp: takeWhile_eq_all_conv)
  show ?thesis using False
    by (simp add: os_path_join_def walk_root_def walk_name_def tw)
next
  case True
  let ?P = "\<lambda>c. c \<noteq> CHR ''/''"
  from True have ne: "dropWhile ?P (rev path) \<noteq> []" by (simp add: dropWhile_eq_Nil_conv)
  then have "hd (dropWhile ?P (rev path)) = CHR ''/''"
    using hd_dropWhile [of ?P "rev path"] by simp
  with ne have dw: "dropWhile ?P (rev path) = CHR ''/'' # tl (dropWhile ?P (rev path))"
    by (metis list.collapse)
  have "rev (tl (dropWhile ?P (rev path))) @ ''/'' @ rev (takeWhile ?P (rev path))
        = rev (takeWhile ?P (rev path) @ CHR ''/'' # tl (dropWhile ?P (rev path)))"
    by simp
  also have "\<dots> = rev (rev path)"
    using dw takeWhile_dropWhile_id [of ?P "rev path"] by simp
  finally show ?thesis using True
    by (simp add: os_path_join_def walk_root_def walk_name_def)
qed

lemma resolve_walk: "resolve (CHR ''.'' # CHR ''/'' # path) = path"
  by (simp add: resolve_def)

lemma existing_file_resolves:
  assumes "f \<in> set (get_existing_files w)"
  shows "\<exists>content. map_of (files w) (resolve f) = Some content"
proof -
  from assms obtain path content where in_files: "(path, content) \<in> set (files w)"
    and f: "f = os_path_join (walk_root path) (walk_name path)"
    by (auto simp: get_existing_files_def os_walk_def)
  from f have "resolve f = path" by (simp add: walk_join resolve_walk)
  moreover from in_files have "map_of (files w) path \<noteq> None"
    by (metis map_of_eq_None_iff image_eqI fst_conv)
  ultimately show ?thesis by auto
qed

lemma get_existing_files_cong: "files w' = files w \<Longrightarrow> get_existing_files w' = get_existing_files w"
  by (simp add: get_existing_files_def os_walk_def)

lemma create_file_fst: "\<exists>w'. create_file w = (fst (create_file w), w')"
  by (simp add: create_file_def prim_defs Let_def split: prod.splits)

lemma modify_file_fst: "fst (modify_file f w) = f"
  by (simp add: modify_file_def  Let_def split: prod.splits)

lemma modify_file_files: 
  "files (snd (modify_file f w)) =  AList.update (resolve f)
      ((case map_of (files w) (resolve f) of None \<Rightarrow> [] | Some old \<Rightarrow> old) 
        @ [CHR 0x0A] @ ''Modified at '' @ str_datetime (clock w (ticks w)) @ [CHR 0x0A]
        @ ''Additional data: '' @ str_int (fst (randint 1 1000000 w)) @ [CHR 0x0A]) (files w)"
  by (simp add: modify_file_def prim_defs Let_def update_conv' split: prod.splits option.splits)

subsection \<open>The branches of perform\_random\_operation\<close>

lemma random_random_eq:
  "random_random w = (of_nat (rng w (draws w) mod 2 ^ 53) / 2 ^ 53, w\<lparr>draws := Suc (draws w)\<rparr>)"
  by (simp add: random_random_def next_raw_def)

lemma random_choice_nonempty:
  "seq \<noteq> [] \<Longrightarrow>
   random_choice seq w = (Inr (seq ! (rng w (draws w) mod length seq)), w\<lparr>draws := Suc (draws w)\<rparr>)"
  by (simp add: random_choice_def next_raw_def)

lemma delete_file_existing:
  assumes "f \<in> set (get_existing_files w)"
  shows "delete_file f w = (Inr f, w\<lparr>files := AList.delete (resolve f) (files w)\<rparr>)"
proof -
  from existing_file_resolves [OF assms] obtain content
    where "map_of (files w) (resolve f) = Some content" ..
  then show ?thesis by (simp add: delete_file_def os_remove_def)
qed

lemma pro_empty:
  "get_existing_files w = [] \<Longrightarrow>
   perform_random_operation w = (Inr (fst (create_file w), ''create''), snd (create_file w))"
  by (simp add: perform_random_operation_def case_prod_beta)


lemma pro_create:
  "get_existing_files w \<noteq> [] \<Longrightarrow> fst (random_random w) < float_0_4 \<Longrightarrow>
   perform_random_operation w =
     (Inr (fst (create_file (drawn w)), ''create''), snd (create_file (drawn w)))"
  by (simp add: perform_random_operation_def case_prod_beta random_random_eq drawn_def)

lemma choice_chosen_file:
  "get_existing_files w \<noteq> [] \<Longrightarrow>
   random_choice (get_existing_files w) (drawn w) = (Inr (chosen_file w), drawn (drawn w))"
  by (simp add: random_choice_nonempty drawn_def chosen_file_def)

lemma random_random_snd: "snd (random_random w) = drawn w"
  by (simp add: random_random_eq drawn_def)

lemma pro_modify:
  assumes "get_existing_files w \<noteq> []" and "\<not> fst (random_random w) < float_0_4"
    and "fst (random_random w) < float_0_8 \<or> length (get_existing_files w) \<le> 5"
  shows "perform_random_operation w =
     (Inr (chosen_file w, ''modify''), snd (modify_file (chosen_file w) (drawn (drawn w))))"
  using assms
  by (auto simp add: perform_random_operation_def Let_def case_prod_beta random_random_snd choice_chosen_file)

lemma pro_delete:
  assumes "\<not> fst (random_random w) < float_0_4"
    and "\<not> fst (random_random w) < float_0_8" and "5 < length (get_existing_files w)"
  shows "perform_random_operation w =
     (Inr (chosen_file w, ''delete''),
      drawn (drawn w)\<lparr>files := AList.delete (resolve (chosen_file w)) (files w)\<rparr>)"
proof -
  have ne: "get_existing_files w \<noteq> []" using assms(3) by auto
  have "chosen_file w \<in> set (get_existing_files w)" using ne by (simp add: chosen_file_def)
  moreover have "get_existing_files (drawn (drawn w)) = get_existing_files w"
    by (rule get_existing_files_cong) (simp add: drawn_def)
  ultimately have "chosen_file w \<in> set (get_existing_files (drawn (drawn w)))"
    by simp
  then have del: "delete_file (chosen_file w) (drawn (drawn w)) =
      (Inr (chosen_file w), drawn (drawn w)\<lparr>files := AList.delete (resolve (chosen_file w)) (files w)\<rparr>)"
    by (simp add: delete_file_existing) (simp add: drawn_def)
  show ?thesis
    using assms ne
    by (simp add: perform_random_operation_def Let_def case_prod_beta random_random_snd choice_chosen_file del)
qed

subsection \<open>The operation-selection policy\<close>

lemma five_world_files:
  "get_existing_files five_world = [''./a.txt'', ''./b.txt'', ''./c.txt'', ''./src/d.txt'', ''./e.txt'']"
  by (simp add: get_existing_files_def os_walk_def walk_root_def walk_name_def os_path_join_def
      five_world_def sublist_code)

lemma six_world_files:
  "get_existing_files six_world =
     [''./a.txt'', ''./b.txt'', ''./c.txt'', ''./src/d.txt'', ''./e.txt'', ''./f.txt'']"
  by (simp add: get_existing_files_def os_walk_def walk_root_def walk_name_def os_path_join_def
      five_world_def six_world_def sublist_code)

lemma five_world_random: "fst (random_random five_world) = 8000000000000000 / 2 ^ 53"
  by (simp add: random_random_eq five_world_def)

lemma six_world_random: "fst (random_random six_world) = 8000000000000000 / 2 ^ 53"
  by (simp add: random_random_eq five_world_def six_world_def)

lemma perform_random_operation_eq:
  "perform_random_operation w =
     (if get_existing_files w = [] then
        (Inr (fst (create_file w), ''create''), snd (create_file w))
      else if fst (random_random w) < float_0_4 then
        (Inr (fst (create_file (drawn w)), ''create''), snd (create_file (drawn w)))
      else if fst (random_random w) < float_0_8 then
        (Inr (chosen_file w, ''modify''), snd (modify_file (chosen_file w) (drawn (drawn w))))
      else if 5 < length (get_existing_files w) then
        (Inr (chosen_file w, ''delete''),
         drawn (drawn w)\<lparr>files := AList.delete (resolve (chosen_file w)) (files w)\<rparr>)
      else
        (Inr (chosen_file w, ''modify''), snd (modify_file (chosen_file w) (drawn (drawn w)))))"
proof (cases "get_existing_files w = []")
  case True
  then show ?thesis by (simp add: pro_empty)
next
  case ne: False
  show ?thesis
  proof (cases "fst (random_random w) < float_0_4")
    case True
    with ne show ?thesis by (simp add: pro_create)
  next
    case n4: False
    show ?thesis
    proof (cases "fst (random_random w) < float_0_8")
      case True
      with ne n4 show ?thesis by (simp add: pro_modify)
    next
      case n8: False
      show ?thesis
      proof (cases "5 < length (get_existing_files w)")
        case True
        with ne n4 n8 show ?thesis by (simp add: pro_delete)
      next
        case False
        with ne n4 n8 show ?thesis by (simp add: pro_modify)
      qed
    qed
  qed
qed

text \<open>
  C2 (the operation-selection policy): with no existing file the operation is create;
  otherwise the draw \<open>r\<close> of \<open>random.random()\<close> lies in \<open>[0, 1)\<close> and selects create below
  0.4, modify of the chosen existing file from 0.4 to below 0.8, and from 0.8 on delete of
  the chosen existing file when there are more than five files, modify of it otherwise.
  The operation never raises. The thresholds are the fractions 2/5 and 4/5: on the doubles
  that \<open>random.random()\<close> returns, comparing with the literals \<open>0.4\<close> and \<open>0.8\<close> decides the
  same.
\<close>

theorem perform_random_operation_policy:
  "perform_random_operation w =
     (let existing_files = get_existing_files w; r = fst (random_random w)
      in if existing_files = [] then
           (Inr (fst (create_file w), ''create''), snd (create_file w))
         else if r < 2 / 5 then
           (Inr (fst (create_file (drawn w)), ''create''), snd (create_file (drawn w)))
         else if r < 4 / 5 then
           (Inr (chosen_file w, ''modify''), snd (modify_file (chosen_file w) (drawn (drawn w))))
         else if 5 < length existing_files then
           (Inr (chosen_file w, ''delete''),
            drawn (drawn w)\<lparr>files := AList.delete (resolve (chosen_file w)) (files w)\<rparr>)
         else
           (Inr (chosen_file w, ''modify''), snd (modify_file (chosen_file w) (drawn (drawn w)))))
   \<and> 0 \<le> fst (random_random w) \<and> fst (random_random w) < 1
   \<and> (get_existing_files w \<noteq> [] \<longrightarrow> chosen_file w \<in> set (get_existing_files w))"
proof -
  let ?r = "fst (random_random w)"
  have r: "?r = of_nat (rng w (draws w) mod 2 ^ 53) / 2 ^ 53"
    by (simp add: random_random_eq)
  have c4: "(?r < float_0_4) = (?r < 2 / 5)"
    by (simp only: r float_0_4_cmp)
  have c8: "(?r < float_0_8) = (?r < 4 / 5)"
    by (simp only: r float_0_8_cmp)
  have mem: "get_existing_files w \<noteq> [] \<longrightarrow> chosen_file w \<in> set (get_existing_files w)"
    by (simp add: chosen_file_def)
  show ?thesis
    using perform_random_operation_eq [of w] c4 c8 mem random_random_unit [of w]
    by (simp add: Let_def)
qed

theorem perform_random_operation_policy_witness:
  "perform_random_operation six_world =
     (Inr (''./src/d.txt'', ''delete''),
      drawn (drawn six_world)\<lparr>files := AList.delete ''src/d.txt'' (files six_world)\<rparr>)
   \<and> ''./src/d.txt'' \<in> set (get_existing_files six_world)"
  using perform_random_operation_policy [of six_world]
  by (simp add: six_world_files six_world_random chosen_file_def resolve_def)
     (simp add: six_world_def five_world_def)


text \<open>
  C3 (no delete at five files or fewer): with at most five existing files the operation
  is not delete, whatever is drawn; a delete implies more than five existing files.
\<close>

theorem delete_only_above_five:
  "(length (get_existing_files w) \<le> 5 \<longrightarrow>
      (\<forall>filename. fst (perform_random_operation w) \<noteq> Inr (filename, ''delete'')))
   \<and> (\<forall>filename. fst (perform_random_operation w) = Inr (filename, ''delete'') \<longrightarrow>
        5 < length (get_existing_files w))"
proof -
  have "5 < length (get_existing_files w)"
    if del: "fst (perform_random_operation w) = Inr (filename, ''delete'')" for filename
  proof (rule ccontr)
    assume small: "\<not> 5 < length (get_existing_files w)"
    show False
    proof (cases "get_existing_files w = []")
      case True
      with del show False by (simp add: pro_empty)
    next
      case ne: False
      show False
      proof (cases "fst (random_random w) < float_0_4")
        case True
        with ne del show False by (simp add: pro_create)
      next
        case False
        with ne small have "perform_random_operation w =
          (Inr (chosen_file w, ''modify''), snd (modify_file (chosen_file w) (drawn (drawn w))))"
          by (intro pro_modify) auto
        with del show False by simp
      qed
    qed
  qed
  then show ?thesis by fastforce
qed

theorem delete_only_above_five_witness:
  "length (get_existing_files five_world) \<le> 5
   \<and> fst (perform_random_operation five_world) \<noteq> Inr (''./src/d.txt'', ''delete'')
   \<and> fst (perform_random_operation six_world) = Inr (''./src/d.txt'', ''delete'')
   \<and> 5 < length (get_existing_files six_world)"
proof -
  have six: "perform_random_operation six_world =
     (Inr (chosen_file six_world, ''delete''),
      drawn (drawn six_world)\<lparr>files := AList.delete (resolve (chosen_file six_world)) (files six_world)\<rparr>)"
    by (rule pro_delete) (simp_all add: six_world_random six_world_files float_0_4_def float_0_8_def)
  have ch: "chosen_file six_world = ''./src/d.txt''"
    by (simp add: chosen_file_def six_world_files) (simp add: six_world_def five_world_def)
  have five: "length (get_existing_files five_world) \<le> 5"
    by (simp add: five_world_files)
  from six ch have del: "fst (perform_random_operation six_world) = Inr (''./src/d.txt'', ''delete'')"
    by simp
  from delete_only_above_five [of five_world] five
    have "fst (perform_random_operation five_world) \<noteq> Inr (''./src/d.txt'', ''delete'')" by blast
  moreover from delete_only_above_five [of six_world] del
    have "5 < length (get_existing_files six_world)" by blast
  ultimately show ?thesis using five del by simp
qed

subsection \<open>The sorted dates\<close>

lemma generate_dates_length: "length (fst (generate_dates n w)) = n"
  by (induction n arbitrary: w) (simp_all add: case_prod_beta)

text \<open>
  C6 (length and order of the dates): for every count the sorted list of dates has exactly
  that many elements, is non-decreasing and holds the dates that were generated. The
  witness is a run of two dates that are equal: equal dates are not excluded.
\<close>

theorem sorted_dates_sorted:
  "length (fst (sorted_dates n w)) = n \<and> sorted (fst (sorted_dates n w))
   \<and> set (fst (sorted_dates n w)) = set (fst (generate_dates n w))"
  by (simp add: sorted_dates_def case_prod_beta generate_dates_length)

lemma frozen_dates:
  "fst (generate_dates 2 frozen_world) = [63863312534456141, 63863312534456141]"
  by (simp add: numeral_2_eq_2 case_prod_beta generate_random_date_def datetime_now_def
      randint_def next_raw_def timedelta_def frozen_world_def late_world_def)

theorem sorted_dates_sorted_witness:
  "length (fst (sorted_dates 2 frozen_world)) = 2
   \<and> sorted (fst (sorted_dates 2 frozen_world))
   \<and> fst (sorted_dates 2 frozen_world) = [63863312534456141, 63863312534456141]
   \<and> \<not> distinct (fst (sorted_dates 2 frozen_world))"
  using sorted_dates_sorted [of 2 frozen_world]
  by (simp add: sorted_dates_def case_prod_beta frozen_dates)

subsection \<open>What the steps leave alone\<close>

lemma quiet_refl: "quiet w w"
  by (simp add: quiet_def)

lemma quiet_trans: "quiet w w1 \<Longrightarrow> quiet w1 w2 \<Longrightarrow> quiet w w2"
  by (simp add: quiet_def)

lemma quiet_drawn: "quiet w (drawn w)"
  by (simp add: quiet_def drawn_def)

lemma quiet_create_file: "quiet w (snd (create_file w))"
  by (simp add: quiet_def create_file_def prim_defs case_prod_beta Let_def)

lemma quiet_modify_file: "quiet w (snd (modify_file f w))"
  by (simp add: quiet_def modify_file_def prim_defs case_prod_beta Let_def)

lemma quiet_generate_random_date: "quiet w (snd (generate_random_date w))"
  by (simp add: quiet_def generate_random_date_def prim_defs case_prod_beta Let_def)

lemma quiet_generate_dates: "quiet w (snd (generate_dates n w))"
proof (induction n arbitrary: w)
  case 0
  show ?case by (simp add: quiet_refl)
next
  case (Suc n)
  have "quiet w (snd (generate_random_date w))" by (rule quiet_generate_random_date)
  moreover have "quiet (snd (generate_random_date w))
      (snd (generate_dates n (snd (generate_random_date w))))" by (rule Suc.IH)
  ultimately show ?case by (simp add: case_prod_beta) (rule quiet_trans)
qed

lemma quiet_sorted_dates: "quiet w (snd (sorted_dates n w))"
  by (simp add: sorted_dates_def case_prod_beta quiet_generate_dates)

lemma quiet_perform_random_operation: "quiet w (snd (perform_random_operation w))"
proof -
  have d2: "quiet w (drawn (drawn w))"
    by (rule quiet_trans [OF quiet_drawn quiet_drawn])
  have "quiet w (snd (create_file (drawn w)))"
    by (rule quiet_trans [OF quiet_drawn quiet_create_file])
  moreover have "quiet w (snd (modify_file (chosen_file w) (drawn (drawn w))))"
    by (rule quiet_trans [OF d2 quiet_modify_file])
  moreover have "quiet w (drawn (drawn w)\<lparr>files := AList.delete (resolve (chosen_file w)) (files w)\<rparr>)"
    by (simp add: quiet_def drawn_def)
  ultimately show ?thesis
    by (simp add: perform_random_operation_eq quiet_create_file)
qed

lemma commit_messages_choice:
  "random_choice COMMIT_MESSAGES w =
     (Inr (COMMIT_MESSAGES ! (rng w (draws w) mod 20)), drawn w)"
  by (simp add: random_choice_def next_raw_def drawn_def COMMIT_MESSAGES_def)

lemma components_choice:
  "random_choice COMPONENTS w = (Inr (COMPONENTS ! (rng w (draws w) mod 14)), drawn w)"
  by (simp add: random_choice_def next_raw_def drawn_def COMPONENTS_def)

lemma features_choice:
  "random_choice FEATURES w = (Inr (FEATURES ! (rng w (draws w) mod 12)), drawn w)"
  by (simp add: random_choice_def next_raw_def drawn_def FEATURES_def)

lemma generate_commit_message_total:
  "\<exists>message. fst (generate_commit_message w) = Inr message"
  by (simp add: generate_commit_message_def commit_messages_choice components_choice
      features_choice)

lemma quiet_generate_commit_message: "quiet w (snd (generate_commit_message w))"
  by (simp add: generate_commit_message_def commit_messages_choice components_choice
      features_choice quiet_drawn quiet_trans [OF quiet_drawn quiet_drawn])

subsection \<open>Evaluating texts and dates\<close>

lemma str_nat_digit: "n < 10 \<Longrightarrow> str_nat n = [digit_char n]"
  by (subst str_nat.simps) simp

lemma str_nat_step: "10 \<le> n \<Longrightarrow> str_nat n = str_nat (n div 10) @ [digit_char (n mod 10)]"
  by (subst str_nat.simps) simp

lemmas eval_str = str_nat_digit str_nat_step digit_char_def str_int_def zero_pad_def

lemmas eval_date = dt_year_def dt_month_def dt_day_def dt_hour_def dt_minute_def
  dt_second_def dt_microsecond_def ord2ymd_def days_before_month_def days_in_month_def Let_def

lemma strftime_format:
  "strftime t ''%Y-%m-%d %H:%M:%S'' =
     zero_pad 4 (str_int (dt_year t)) @ ''-'' @ zero_pad 2 (str_int (dt_month t)) @ ''-''
     @ zero_pad 2 (str_int (dt_day t)) @ '' '' @ zero_pad 2 (str_int (dt_hour t)) @ '':''
     @ zero_pad 2 (str_int (dt_minute t)) @ '':'' @ zero_pad 2 (str_int (dt_second t))"
  by (simp add: directive_def)

lemma strftime_sample: "strftime 63894848534456141 ''%Y-%m-%d %H:%M:%S'' = ''2025-09-30 17:02:14''"
  by (subst strftime_format) (simp add: eval_date eval_str)

lemma str_datetime_sample: "str_datetime 63894848534456141 = ''2025-09-30 17:02:14.456141''"
  by (simp add: str_datetime_def eval_date eval_str)

lemma str_nat_NUM_COMMITS: "str_nat NUM_COMMITS = ''5''"
  by (simp add: NUM_COMMITS_def eval_str)

subsection \<open>create\_commit\<close>

lemma subprocess_run_eq:
  "subprocess_run args env w =
     (if exits w (length (calls w)) = 0 then Inr ()
      else Inl (process_error w (length (calls w)) args),
      w\<lparr>calls := calls w @ [(args, env)]\<rparr>)"
  by (simp add: subprocess_run_def process_error_def Let_def split: option.splits)

lemma create_commit_eq:
  assumes op: "perform_random_operation w = (Inr (filename, operation), w1)"
    and msg: "generate_commit_message w1 = (Inr message, w2)"
  shows "create_commit commit_date w =
     (let stage = ([''git'', if operation = ''delete'' then ''rm'' else ''add'', filename],
                   environ w);
          commit = ([''git'', ''commit'', ''-m'', message],
                    commit_env (strftime commit_date ''%Y-%m-%d %H:%M:%S'') w);
          status = exits w (length (calls w));
          status' = exits w (Suc (length (calls w)))
      in if status \<noteq> 0 then
           (Inl (process_error w (length (calls w)) (fst stage)),
            w2\<lparr>calls := calls w @ [stage]\<rparr>)
         else if status' \<noteq> 0 then
           (Inl (process_error w (Suc (length (calls w))) (fst commit)),
            w2\<lparr>calls := calls w @ [stage, commit]\<rparr>)
         else (Inr (message, operation, filename), w2\<lparr>calls := calls w @ [stage, commit]\<rparr>))"
proof -
  have "quiet w w1" using quiet_perform_random_operation [of w] op by simp
  moreover have "quiet w1 w2" using quiet_generate_commit_message [of w1] msg by simp
  ultimately have q: "quiet w w2" by (rule quiet_trans)
  then have same: "environ w2 = environ w" "exits w2 = exits w" "launch w2 = launch w"
    "calls w2 = calls w"
    by (simp_all add: quiet_def)
  have pe: "process_error (w2\<lparr>calls := c\<rparr>) k args = process_error w k args"
    "process_error w2 k args = process_error w k args" for c k args
    by (simp_all add: process_error_def same split: option.splits)
  show ?thesis
    by (simp add: create_commit_def op msg subprocess_run_eq same pe commit_env_def Let_def)
qed

lemma map_of_commit_env:
  "map_of (commit_env date_str w) k =
     (if k = ''GIT_COMMITTER_DATE'' \<or> k = ''GIT_AUTHOR_DATE'' then Some date_str
      else map_of (environ w) k)"
  by (simp add: commit_env_def update_conv')

text \<open>
  C8 (staging and dates of a commit): when the operation and the message have been
  produced, create\_commit runs \<open>git rm\<close> on the file exactly when the operation is delete
  and \<open>git add\<close> otherwise, and, when staging succeeds, \<open>git commit -m message\<close> in an
  environment that differs from the inherited one in two variables only,
  \<open>GIT_AUTHOR_DATE\<close> and \<open>GIT_COMMITTER_DATE\<close>, both set to the same text: the commit date
  as year-month-day, a space, hour:minute:second, each field padded with zeros.
\<close>

theorem create_commit_calls:
  assumes "perform_random_operation w = (Inr (filename, operation), w1)"
    and "generate_commit_message w1 = (Inr message, w2)"
  shows "let date_str = strftime commit_date ''%Y-%m-%d %H:%M:%S'';
             stage = ([''git'', if operation = ''delete'' then ''rm'' else ''add'', filename],
                      environ w);
             commit = ([''git'', ''commit'', ''-m'', message], commit_env date_str w)
         in calls (snd (create_commit commit_date w)) =
              calls w @ (if exits w (length (calls w)) \<noteq> 0 then [stage] else [stage, commit])
            \<and> map_of (snd commit) ''GIT_AUTHOR_DATE'' = Some date_str
            \<and> map_of (snd commit) ''GIT_COMMITTER_DATE'' = Some date_str
            \<and> (\<forall>k. k \<noteq> ''GIT_AUTHOR_DATE'' \<and> k \<noteq> ''GIT_COMMITTER_DATE''
                   \<longrightarrow> map_of (snd commit) k = map_of (environ w) k)
            \<and> date_str =
                zero_pad 4 (str_int (dt_year commit_date)) @ ''-''
                @ zero_pad 2 (str_int (dt_month commit_date)) @ ''-''
                @ zero_pad 2 (str_int (dt_day commit_date)) @ '' ''
                @ zero_pad 2 (str_int (dt_hour commit_date)) @ '':''
                @ zero_pad 2 (str_int (dt_minute commit_date)) @ '':''
                @ zero_pad 2 (str_int (dt_second commit_date))"
proof -
  let ?ds = "strftime commit_date ''%Y-%m-%d %H:%M:%S''"
  have fmt: "?ds =
         zero_pad 4 (str_int (dt_year commit_date)) @ ''-''
         @ zero_pad 2 (str_int (dt_month commit_date)) @ ''-''
         @ zero_pad 2 (str_int (dt_day commit_date)) @ '' ''
         @ zero_pad 2 (str_int (dt_hour commit_date)) @ '':''
         @ zero_pad 2 (str_int (dt_minute commit_date)) @ '':''
         @ zero_pad 2 (str_int (dt_second commit_date))"
    by (rule strftime_format)
  have log: "calls (snd (create_commit commit_date w)) =
      calls w @ (if exits w (length (calls w)) \<noteq> 0
        then [([''git'', if operation = ''delete'' then ''rm'' else ''add'', filename], environ w)]
        else [([''git'', if operation = ''delete'' then ''rm'' else ''add'', filename], environ w),
              ([''git'', ''commit'', ''-m'', message], commit_env ?ds w)])"
    by (simp add: create_commit_eq [OF assms] Let_def)
  show ?thesis
    unfolding Let_def using log fmt by (simp only: snd_conv map_of_commit_env) simp
qed

lemma six_world_operation:
  "perform_random_operation six_world =
     (Inr (''./src/d.txt'', ''delete''),
      drawn (drawn six_world)\<lparr>files := AList.delete ''src/d.txt'' (files six_world)\<rparr>)"
proof -
  have "perform_random_operation six_world =
     (Inr (chosen_file six_world, ''delete''),
      drawn (drawn six_world)\<lparr>files := AList.delete (resolve (chosen_file six_world)) (files six_world)\<rparr>)"
    by (rule pro_delete) (simp_all add: six_world_random six_world_files float_0_4_def float_0_8_def)
  moreover have "chosen_file six_world = ''./src/d.txt''"
    by (simp add: chosen_file_def six_world_files) (simp add: six_world_def five_world_def)
  ultimately show ?thesis by (simp add: resolve_def)
qed

lemma six_world_message:
  "generate_commit_message
     (drawn (drawn six_world)\<lparr>files := AList.delete ''src/d.txt'' (files six_world)\<rparr>) =
   (Inr ''Refactor UI components code'',
    drawn (drawn (drawn (drawn six_world)\<lparr>files := AList.delete ''src/d.txt'' (files six_world)\<rparr>)))"
  by (simp add: generate_commit_message_def random_choice_def next_raw_def drawn_def
      six_world_def five_world_def COMMIT_MESSAGES_def COMPONENTS_def sublist_code)

theorem create_commit_calls_witness:
  "calls (snd (create_commit 63894848534456141 six_world)) =
     [([''git'', ''rm'', ''./src/d.txt''], []),
      ([''git'', ''commit'', ''-m'', ''Refactor UI components code''],
       [(''GIT_AUTHOR_DATE'', ''2025-09-30 17:02:14''),
        (''GIT_COMMITTER_DATE'', ''2025-09-30 17:02:14'')])]"
proof -
  note th = create_commit_calls [OF six_world_operation six_world_message,
      of 63894848534456141, unfolded Let_def strftime_sample]
  then show ?thesis
    by (simp add: commit_env_def six_world_def five_world_def)
qed

subsection \<open>The loop of main\<close>

lemma perform_random_operation_total:
  "\<exists>filename operation. fst (perform_random_operation w) = Inr (filename, operation)"
  by (simp add: perform_random_operation_eq)

lemma create_commit_steps:
  obtains filename operation w1 message w2 where
    "perform_random_operation w = (Inr (filename, operation), w1)"
    "generate_commit_message w1 = (Inr message, w2)"
    "quiet w w2"
proof -
  obtain filename operation where "fst (perform_random_operation w) = Inr (filename, operation)"
    using perform_random_operation_total by blast
  then have op: "perform_random_operation w =
      (Inr (filename, operation), snd (perform_random_operation w))"
    by (metis prod.collapse)
  let ?w1 = "snd (perform_random_operation w)"
  obtain message where "fst (generate_commit_message ?w1) = Inr message"
    using generate_commit_message_total by blast
  then have msg: "generate_commit_message ?w1 = (Inr message, snd (generate_commit_message ?w1))"
    by (metis prod.collapse)
  have "quiet w (snd (generate_commit_message ?w1))"
    by (rule quiet_trans [OF quiet_perform_random_operation quiet_generate_commit_message])
  with op msg show ?thesis using that by blast
qed

lemma create_commit_keeps:
  "cwd (snd (create_commit d w)) = cwd w \<and> stdout (snd (create_commit d w)) = stdout w
   \<and> exits (snd (create_commit d w)) = exits w
   \<and> launch (snd (create_commit d w)) = launch w"
proof -
  obtain filename operation w1 message w2 where
    op: "perform_random_operation w = (Inr (filename, operation), w1)" and
    msg: "generate_commit_message w1 = (Inr message, w2)" and q: "quiet w w2"
    by (rule create_commit_steps)
  from q show ?thesis by (simp add: create_commit_eq [OF op msg] Let_def quiet_def)
qed

lemma create_commit_fails:
  assumes "exits w (length (calls w)) \<noteq> 0"
  shows "\<exists>args. fst (create_commit d w) = Inl (process_error w (length (calls w)) args)"
proof -
  obtain filename operation w1 message w2 where
    op: "perform_random_operation w = (Inr (filename, operation), w1)" and
    msg: "generate_commit_message w1 = (Inr message, w2)"
    by (rule create_commit_steps)
  from assms show ?thesis by (auto simp add: create_commit_eq [OF op msg] Let_def)
qed

lemma create_commit_succeeds:
  assumes "exits w (length (calls w)) = 0" and "exits w (Suc (length (calls w))) = 0"
  shows "\<exists>r. fst (create_commit d w) = Inr r"
proof -
  obtain filename operation w1 message w2 where
    op: "perform_random_operation w = (Inr (filename, operation), w1)" and
    msg: "generate_commit_message w1 = (Inr message, w2)"
    by (rule create_commit_steps)
  from assms show ?thesis by (simp add: create_commit_eq [OF op msg] Let_def)
qed

lemma iteration_failure:
  "create_commit date w = (Inl e, w1) \<Longrightarrow> iteration i date w = print_line (error_line i e) w1"
  by (simp add: iteration_def error_line_def)

lemma iteration_keeps:
  "cwd (iteration i d w) = cwd w \<and> exits (iteration i d w) = exits w
   \<and> prefix (stdout w) (stdout (iteration i d w))"
  using create_commit_keeps [of d w]
  by (cases "create_commit d w")
     (auto simp add: iteration_def print_line_def split: sum.splits)

lemma run_loop_keeps:
  "cwd (run_loop ds w) = cwd w \<and> exits (run_loop ds w) = exits w
   \<and> prefix (stdout w) (stdout (run_loop ds w))"
proof (induction ds arbitrary: w)
  case Nil
  show ?case by simp
next
  case (Cons a ds)
  obtain i d where a: "a = (i, d)" by (cases a)
  from Cons.IH [of "iteration i d w"] iteration_keeps [of i d w]
  show ?case unfolding a by (auto intro: prefix_order.trans)
qed

lemma before_loop_keeps:
  "stdout (snd (before_loop w)) = stdout w @ opening_lines
   \<and> cwd (snd (before_loop w)) = cwd w \<and> exits (snd (before_loop w)) = exits w
   \<and> map fst (fst (before_loop w)) = [1..<6]"
proof -
  define w2 where "w2 = print_line (replicate 50 CHR ''='') (print_line ''Git Commit Generator'' w)"
  have "quiet w2 (snd (sorted_dates NUM_COMMITS w2))" by (rule quiet_sorted_dates)
  moreover have "stdout w2 = stdout w @ [''Git Commit Generator'', replicate 50 CHR ''='']"
    "cwd w2 = cwd w" "exits w2 = exits w"
    by (simp_all add: w2_def print_line_def)
  moreover have "snd (before_loop w) =
      print_line ([CHR 0x0A] @ ''Generating '' @ str_nat NUM_COMMITS @ '' commits...'')
        (snd (sorted_dates NUM_COMMITS w2))"
    unfolding w2_def by (simp add: before_loop_def Let_def case_prod_beta)
  moreover have "map fst (fst (before_loop w)) = [1..<6]"
  proof -
    have "length (fst (sorted_dates NUM_COMMITS w2)) = 5"
      by (simp add: sorted_dates_def case_prod_beta generate_dates_length NUM_COMMITS_def)
    moreover have "fst (before_loop w) = enumerate 1 (fst (sorted_dates NUM_COMMITS w2))"
      unfolding w2_def by (simp add: before_loop_def Let_def case_prod_beta)
    ultimately show ?thesis by (simp only: map_fst_enumerate) simp
  qed
  ultimately show ?thesis
    by (simp add: quiet_def print_line_def str_nat_NUM_COMMITS opening_lines_def)
qed


lemma main_eq:
  "stdout (main w) =
     stdout (run_loop (fst (before_loop w)) (snd (before_loop w)))
     @ summary_lines (cwd (run_loop (fst (before_loop w)) (snd (before_loop w))))"
  by (simp add: main_def before_loop_def Let_def case_prod_beta print_line_def
      summary_lines_def str_nat_NUM_COMMITS)

lemma main_stdout:
  "\<exists>out. stdout (main w) = stdout w @ opening_lines @ out @ summary_lines (cwd w)"
proof -
  let ?ds = "fst (before_loop w)" and ?w4 = "snd (before_loop w)"
  from run_loop_keeps [of ?ds ?w4] obtain out
    where "stdout (run_loop ?ds ?w4) = stdout ?w4 @ out" and "cwd (run_loop ?ds ?w4) = cwd ?w4"
    by (auto simp: prefix_def)
  then show ?thesis
    by (intro exI [of _ out]) (simp add: main_eq before_loop_keeps)
qed


lemma run_loop_all_fail:
  assumes "\<forall>k. exits w k \<noteq> 0"
  shows "\<exists>es. length es = length ds
    \<and> stdout (run_loop ds w) = stdout w @ map (\<lambda>(i, e). error_line i e) (zip (map fst ds) es)"
  using assms
proof (induction ds arbitrary: w)
  case Nil
  show ?case by simp
next
  case (Cons a ds)
  obtain i d where a: "a = (i, d)" by (cases a)
  have "exits w (length (calls w)) \<noteq> 0" using Cons.prems by simp
  then obtain e where "fst (create_commit d w) = Inl e"
    using create_commit_fails [of w d] by auto
  then obtain w1 where e: "create_commit d w = (Inl e, w1)"
    by (cases "create_commit d w") simp
  let ?w' = "iteration i d w"
  have it: "?w' = print_line (error_line i e) w1"
    using e by (rule iteration_failure)
  have out: "stdout ?w' = stdout w @ [error_line i e]"
    using create_commit_keeps [of d w] by (simp add: it e print_line_def)
  have "\<forall>k. exits ?w' k \<noteq> 0" using Cons.prems iteration_keeps [of i d w] by simp
  from Cons.IH [OF this] obtain es where "length es = length ds"
    and "stdout (run_loop ds ?w') = stdout ?w' @ map (\<lambda>(i, e). error_line i e) (zip (map fst ds) es)"
    by blast
  then show ?case unfolding a
    by (intro exI [of _ "e # es"]) (simp add: out)
qed

lemma run_loop_all_ok:
  assumes "\<forall>k. exits w k = 0" and "\<forall>i \<in> set (map fst ds). i mod 50 \<noteq> 0"
  shows "stdout (run_loop ds w) = stdout w"
  using assms
proof (induction ds arbitrary: w)
  case Nil
  show ?case by simp
next
  case (Cons a ds)
  obtain i d where a: "a = (i, d)" by (cases a)
  have "exits w (length (calls w)) = 0" and "exits w (Suc (length (calls w))) = 0"
    using Cons.prems(1) by simp_all
  then obtain r where "fst (create_commit d w) = Inr r"
    using create_commit_succeeds [of w d] by auto
  then obtain w1 where r: "create_commit d w = (Inr r, w1)"
    by (cases "create_commit d w") simp
  let ?w' = "iteration i d w"
  have i: "i mod 50 \<noteq> 0" using Cons.prems(2) by (simp add: a)
  have out: "stdout ?w' = stdout w"
    using create_commit_keeps [of d w] i by (simp add: iteration_def r)
  have "\<forall>k. exits ?w' k = 0" using Cons.prems(1) iteration_keeps [of i d w] by simp
  moreover have "\<forall>i \<in> set (map fst ds). i mod 50 \<noteq> 0" using Cons.prems(2) by simp
  ultimately have "stdout (run_loop ds ?w') = stdout ?w'" by (rule Cons.IH)
  then show ?case unfolding a by (simp add: out)
qed


lemma create_commit_stage_failure:
  assumes op: "fst (perform_random_operation w) = Inr (filename, operation)"
    and status: "exits w (length (calls w)) \<noteq> 0"
  shows "fst (create_commit d w) =
     Inl (process_error w (length (calls w))
            [''git'', if operation = ''delete'' then ''rm'' else ''add'', filename])"
proof -
  obtain w1 where op': "perform_random_operation w = (Inr (filename, operation), w1)"
    using op by (cases "perform_random_operation w") simp
  obtain message where "fst (generate_commit_message w1) = Inr message"
    using generate_commit_message_total by blast
  then obtain w2 where msg: "generate_commit_message w1 = (Inr message, w2)"
    by (cases "generate_commit_message w1") simp
  from status show ?thesis by (simp add: create_commit_eq [OF op' msg] Let_def)
qed

lemma failing_world_operation:
  "fst (perform_random_operation failing_world) = Inr (''./src/d.txt'', ''modify'')"
proof -
  have files: "get_existing_files failing_world = get_existing_files five_world"
    by (rule get_existing_files_cong) (simp add: failing_world_def)
  have r: "fst (random_random failing_world) = 8000000000000000 / 2 ^ 53"
    by (simp add: random_random_eq failing_world_def five_world_def)
  have "perform_random_operation failing_world =
     (Inr (chosen_file failing_world, ''modify''),
      snd (modify_file (chosen_file failing_world) (drawn (drawn failing_world))))"
    by (rule pro_modify) (simp_all add: files five_world_files r float_0_4_def)
  moreover have "chosen_file failing_world = ''./src/d.txt''"
    by (simp add: chosen_file_def files five_world_files)
       (simp add: failing_world_def five_world_def)
  ultimately show ?thesis by simp
qed

text \<open>
  C10 (the summary does not depend on failures): every run of \<open>main\<close> ends with the same
  three lines, which report 5 commits as generated. When every call of git fails, all five
  iterations print an error line and no commit is made; when every call succeeds, nothing
  is printed in the loop; the summary is the same in both runs.
\<close>

theorem summary_ignores_failures:
  "(\<exists>out. stdout (main w) = stdout w @ opening_lines @ out @ summary_lines (cwd w))
   \<and> ((\<forall>k. exits w k \<noteq> 0) \<longrightarrow>
        (\<exists>es. length es = 5
           \<and> stdout (main w) =
               stdout w @ opening_lines @ map (\<lambda>(i, e). error_line i e) (zip [1..<6] es)
               @ summary_lines (cwd w)))
   \<and> ((\<forall>k. exits w k = 0) \<longrightarrow>
        stdout (main w) = stdout w @ opening_lines @ summary_lines (cwd w))"
proof -
  let ?ds = "fst (before_loop w)" and ?w4 = "snd (before_loop w)"
  note keeps = before_loop_keeps [of w]
  have c: "cwd (run_loop ?ds ?w4) = cwd w" using run_loop_keeps [of ?ds ?w4] keeps by simp
  have "length (map fst ?ds) = length [1..<6::nat]" using keeps by simp
  then have len: "length ?ds = 5" by simp
  have fail: "\<exists>es. length es = 5
           \<and> stdout (main w) =
               stdout w @ opening_lines @ map (\<lambda>(i, e). error_line i e) (zip [1..<6] es)
               @ summary_lines (cwd w)" if "\<forall>k. exits w k \<noteq> 0"
  proof -
    from that keeps have "\<forall>k. exits ?w4 k \<noteq> 0" by simp
    from run_loop_all_fail [OF this, of ?ds] obtain es where "length es = length ?ds"
      and "stdout (run_loop ?ds ?w4) =
           stdout ?w4 @ map (\<lambda>(i, e). error_line i e) (zip (map fst ?ds) es)" by blast
    with len keeps c show ?thesis
      by (intro exI [of _ es]) (simp add: main_eq)
  qed
  have ok: "stdout (main w) = stdout w @ opening_lines @ summary_lines (cwd w)"
    if "\<forall>k. exits w k = 0"
  proof -
    from that keeps have "\<forall>k. exits ?w4 k = 0" by simp
    moreover have "\<forall>i \<in> set (map fst ?ds). i mod 50 \<noteq> 0" using keeps by auto
    ultimately have "stdout (run_loop ?ds ?w4) = stdout ?w4" by (rule run_loop_all_ok)
    with keeps c show ?thesis by (simp add: main_eq)
  qed
  from main_stdout [of w] fail ok show ?thesis by blast
qed

theorem summary_ignores_failures_witness:
  "(\<exists>es. length es = 5
      \<and> stdout (main failing_world) =
          opening_lines @ map (\<lambda>(i, e). error_line i e) (zip [1..<6] es)
          @ summary_lines ''/repo'')
   \<and> stdout (main five_world) = opening_lines @ summary_lines ''/repo''"
  using summary_ignores_failures [of failing_world] summary_ignores_failures [of five_world]
  by (simp add: failing_world_def five_world_def)

subsection \<open>Exceptions in the loop\<close>








text \<open>Every exception value reaches the handler of the loop in some world.\<close>

lemma create_commit_raises_any:
  "fst (create_commit date (five_world\<lparr>exits := (\<lambda>k. 1), launch := (\<lambda>k. Some e)\<rparr>)) = Inl e"
proof -
  let ?w = "five_world\<lparr>exits := (\<lambda>k. 1), launch := (\<lambda>k. Some e)\<rparr>"
  have "exits ?w (length (calls ?w)) \<noteq> 0" by simp
  then obtain args where "fst (create_commit date ?w) = Inl (process_error ?w (length (calls ?w)) args)"
    using create_commit_fails [of ?w date] by auto
  then show ?thesis by (simp add: process_error_def)
qed







subsection \<open>Digits and lines\<close>

lemma digit_char_digit: "d < 10 \<Longrightarrow> digit_char d \<in> set ''0123456789''"
  unfolding digit_char_def by (rule nth_mem) simp

lemma str_nat_digits: "set (str_nat n) \<subseteq> set ''0123456789''"
proof (induction n rule: str_nat.induct)
  case (1 n)
  show ?case
  proof (cases "n < 10")
    case True
    then have "str_nat n = [digit_char n]" by (rule str_nat_digit)
    with True show ?thesis using digit_char_digit [of n] by simp
  next
    case False
    then have "set (str_nat (n div 10)) \<subseteq> set ''0123456789''" by (rule "1.IH")
    moreover have "digit_char (n mod 10) \<in> set ''0123456789''"
      by (rule digit_char_digit) simp
    moreover have "str_nat n = str_nat (n div 10) @ [digit_char (n mod 10)]"
      by (rule str_nat_step) (use False in simp)
    ultimately show ?thesis by simp
  qed
qed

lemma digits_no_newline: "CHR 0x0A \<notin> set ''0123456789''"
  by simp

lemma str_nat_no_newline: "CHR 0x0A \<notin> set (str_nat n)"
  using str_nat_digits [of n] digits_no_newline by blast

lemma str_int_no_newline: "CHR 0x0A \<notin> set (str_int i)"
  by (simp add: str_int_def str_nat_no_newline)

lemma padded_no_newline: "CHR 0x0A \<notin> set s \<Longrightarrow> CHR 0x0A \<notin> set (zero_pad k s)"
  by (simp add: zero_pad_def)

lemma str_datetime_no_newline: "CHR 0x0A \<notin> set (str_datetime t)"
  by (simp add: str_datetime_def padded_no_newline str_int_no_newline)

lemma str_nat_four:
  assumes "1000 \<le> n" and "n \<le> 9999"
  shows "str_nat n = [digit_char (n div 1000), digit_char (n div 100 mod 10),
                      digit_char (n div 10 mod 10), digit_char (n mod 10)]"
proof -
  have a: "str_nat n = str_nat (n div 10) @ [digit_char (n mod 10)]"
    by (rule str_nat_step) (use assms in arith)
  have b: "str_nat (n div 10) = str_nat (n div 100) @ [digit_char (n div 10 mod 10)]"
    using str_nat_step [of "n div 10"] assms by (simp add: div_mult2_eq [symmetric])
  have c: "str_nat (n div 100) = str_nat (n div 1000) @ [digit_char (n div 100 mod 10)]"
    using str_nat_step [of "n div 100"] assms by (simp add: div_mult2_eq [symmetric])
  have d: "str_nat (n div 1000) = [digit_char (n div 1000)]"
    by (rule str_nat_digit) (use assms in arith)
  show ?thesis by (simp only: a b c d append.simps)
qed

lemma lines_from_line:
  "CHR 0x0A \<notin> set xs \<Longrightarrow>
   lines_from cur (xs @ CHR 0x0A # rest) = (cur @ xs) # lines_from [] rest"
  by (induction xs arbitrary: cur) auto

lemma lines_from_append_newline:
  "lines_from cur (xs @ CHR 0x0A # rest) = lines_from cur (xs @ [CHR 0x0A]) @ lines_from [] rest"
  by (induction xs arbitrary: cur) auto

lemma length_lines_from_terminated:
  "length (lines_from cur (xs @ [CHR 0x0A])) =
     length (lines_from cur xs)
     + (if (xs = [] \<and> cur = []) \<or> (xs \<noteq> [] \<and> last xs = CHR 0x0A) then 1 else 0)"
  by (induction xs arbitrary: cur) auto

lemma two_lines:
  assumes "CHR 0x0A \<notin> set a" and "CHR 0x0A \<notin> set b"
  shows "lines_of (a @ [CHR 0x0A] @ b @ [CHR 0x0A]) = [a, b]"
proof -
  have "lines_from [] (a @ CHR 0x0A # b @ [CHR 0x0A]) = ([] @ a) # lines_from [] (b @ [CHR 0x0A])"
    using assms(1) by (rule lines_from_line)
  moreover have "lines_from [] (b @ CHR 0x0A # []) = ([] @ b) # lines_from [] []"
    using assms(2) by (rule lines_from_line)
  ultimately show ?thesis by (simp add: lines_of_def)
qed

lemma line_count_appended:
  assumes "CHR 0x0A \<notin> set a" and "CHR 0x0A \<notin> set b"
  shows "line_count (old @ [CHR 0x0A] @ a @ [CHR 0x0A] @ b @ [CHR 0x0A]) =
     line_count old + (if old = [] \<or> last old = CHR 0x0A then 3 else 2)"
proof -
  have "lines_from [] (old @ CHR 0x0A # a @ [CHR 0x0A] @ b @ [CHR 0x0A]) =
      lines_from [] (old @ [CHR 0x0A]) @ lines_from [] (a @ [CHR 0x0A] @ b @ [CHR 0x0A])"
    by (rule lines_from_append_newline)
  moreover have "lines_from [] (a @ [CHR 0x0A] @ b @ [CHR 0x0A]) = [a, b]"
    using two_lines [OF assms] by (simp add: lines_of_def)
  moreover have "length (lines_from [] (old @ [CHR 0x0A])) =
      length (lines_from [] old) + (if old = [] \<or> last old = CHR 0x0A then 1 else 0)"
    using length_lines_from_terminated [of "[]" old] by auto
  ultimately show ?thesis
    by (simp add: line_count_def lines_of_def)
qed

subsection \<open>create\_file and modify\_file\<close>

lemma create_file_eq:
  "create_file w =
     (''file_'' @ str_int (fst (randint 1000 9999 w)) @ ''.txt'',
      w\<lparr>draws := Suc (Suc (draws w)), ticks := Suc (ticks w),
        files := AList.update (''file_'' @ str_int (fst (randint 1000 9999 w)) @ ''.txt'')
          (''Content generated at '' @ str_datetime (clock w (ticks w)) @ [CHR 0x0A]
           @ ''Random data: '' @ str_int (fst (randint 1 1000000 (drawn w))) @ [CHR 0x0A])
          (files w)\<rparr>)"
  by (simp add: create_file_def prim_defs drawn_def Let_def resolve_def)

lemma modify_file_eq:
  "modify_file filename w =
     (filename,
      w\<lparr>ticks := Suc (ticks w), draws := Suc (draws w),
        files := AList.update (resolve filename)
          ((case map_of (files w) (resolve filename) of None \<Rightarrow> [] | Some old \<Rightarrow> old)
           @ [CHR 0x0A] @ ''Modified at '' @ str_datetime (clock w (ticks w)) @ [CHR 0x0A]
           @ ''Additional data: '' @ str_int (fst (randint 1 1000000 w)) @ [CHR 0x0A])
          (files w)\<rparr>)"
  by (simp add: modify_file_def prim_defs Let_def update_conv' split: option.splits)


lemma str_int_four:
  assumes "1000 \<le> n" and "n \<le> 9999"
  shows "length (str_int n) = 4 \<and> set (str_int n) \<subseteq> set ''0123456789''"
proof -
  have "str_int n = str_nat (nat n)" using assms by (simp add: str_int_def)
  moreover have "length (str_nat (nat n)) = 4"
    by (subst str_nat_four) (use assms in simp_all)
  ultimately show ?thesis using str_nat_digits [of "nat n"] by simp
qed

lemma create_file_content:
  "map_of (files (snd (create_file w))) (resolve (fst (create_file w))) =
     Some (''Content generated at '' @ str_datetime (clock w (ticks w)) @ [CHR 0x0A]
           @ ''Random data: '' @ str_int (fst (randint 1 1000000 (drawn w))) @ [CHR 0x0A])"
  by (simp add: create_file_eq update_conv' resolve_def)

text \<open>
  C7 (create\_file): in every world \<open>create_file\<close> returns the name \<open>file_\<close>\<open>n\<close>\<open>.txt\<close>,
  where \<open>n\<close> is the draw from 1000 to 9999 and is written with four decimal digits. After
  the call the file of that name holds exactly two lines, each ended by a line feed and
  neither empty: \<open>Content generated at\<close> with the reading of the clock, and
  \<open>Random data:\<close> with the draw from 1 to 1000000. The statement holds whatever the tree
  held under that name before: there is no check, and a file of that name is overwritten.
\<close>

theorem create_file_two_lines:
  "(let n = fst (randint 1000 9999 w);
        stamp = ''Content generated at '' @ str_datetime (clock w (ticks w));
        payload = ''Random data: '' @ str_int (fst (randint 1 1000000 (drawn w)));
        content = stamp @ [CHR 0x0A] @ payload @ [CHR 0x0A]
    in fst (create_file w) = ''file_'' @ str_int n @ ''.txt''
       \<and> 1000 \<le> n \<and> n \<le> 9999
       \<and> length (str_int n) = 4 \<and> set (str_int n) \<subseteq> set ''0123456789''
       \<and> map_of (files (snd (create_file w))) (resolve (fst (create_file w))) = Some content
       \<and> lines_of content = [stamp, payload]
       \<and> stamp \<noteq> [] \<and> payload \<noteq> [])"
proof -
  have r: "1000 \<le> fst (randint 1000 9999 w) \<and> fst (randint 1000 9999 w) \<le> 9999"
    by (rule randint_range) simp
  have four: "length (str_int (fst (randint 1000 9999 w))) = 4
      \<and> set (str_int (fst (randint 1000 9999 w))) \<subseteq> set ''0123456789''"
    using r by (simp only: str_int_four)
  have name: "fst (create_file w) = ''file_'' @ str_int (fst (randint 1000 9999 w)) @ ''.txt''"
    by (simp add: create_file_eq)
  have ls: "lines_of ((''Content generated at '' @ str_datetime (clock w (ticks w))) @ [CHR 0x0A]
        @ (''Random data: '' @ str_int (fst (randint 1 1000000 (drawn w)))) @ [CHR 0x0A]) =
      [''Content generated at '' @ str_datetime (clock w (ticks w)),
       ''Random data: '' @ str_int (fst (randint 1 1000000 (drawn w)))]"
    by (rule two_lines) (simp_all add: str_datetime_no_newline str_int_no_newline)
  show ?thesis
    unfolding Let_def
    using r four name ls create_file_content [of w] by simp
qed


lemma late_randint_name: "fst (randint 1000 9999 late_world) = 1365"
  by (simp add: randint_def next_raw_def late_world_def)

lemma clash_randint_name: "fst (randint 1000 9999 clash_world) = 1365"
  by (simp add: randint_def next_raw_def late_world_def clash_world_def)

lemma clash_randint_data: "fst (randint 1 1000000 (drawn clash_world)) = 86401"
  by (simp add: randint_def next_raw_def late_world_def clash_world_def drawn_def)

lemma late_randint_data: "fst (randint 1 1000000 (drawn late_world)) = 86401"
  by (simp add: randint_def next_raw_def late_world_def drawn_def)

lemma str_int_1365: "str_int 1365 = ''1365''"
  by (simp add: eval_str)

lemma str_int_86401: "str_int 86401 = ''86401''"
  by (simp add: eval_str)

lemma clash_clock: "clock clash_world (ticks clash_world) = 63894848534456141"
  by (simp add: clash_world_def late_world_def)

text \<open>
  In a tree that holds \<open>file_1365.txt\<close> with other content, \<open>create_file\<close> draws that
  name and the old content is gone.
\<close>

theorem create_file_two_lines_witness:
  "map_of (files clash_world) ''file_1365.txt'' = Some ''kept notes''
   \<and> fst (create_file clash_world) = ''file_1365.txt''
   \<and> map_of (files (snd (create_file clash_world))) ''file_1365.txt'' =
       Some (''Content generated at 2025-09-30 17:02:14.456141'' @ [CHR 0x0A]
             @ ''Random data: 86401'' @ [CHR 0x0A])
   \<and> lines_of (''Content generated at 2025-09-30 17:02:14.456141'' @ [CHR 0x0A]
             @ ''Random data: 86401'' @ [CHR 0x0A]) =
       [''Content generated at 2025-09-30 17:02:14.456141'', ''Random data: 86401'']"
proof -
  have old: "map_of (files clash_world) ''file_1365.txt'' = Some ''kept notes''"
    by (simp add: clash_world_def)
  show ?thesis
    using create_file_two_lines [of clash_world] old
    unfolding Let_def clash_randint_name clash_randint_data clash_clock str_int_1365
      str_int_86401 str_datetime_sample
    by (elim conjE) (simp add: resolve_def)
qed


lemma modify_file_content:
  "map_of (files (snd (modify_file filename w))) (resolve filename) =
     Some ((case map_of (files w) (resolve filename) of None \<Rightarrow> [] | Some old \<Rightarrow> old)
       @ [CHR 0x0A] @ ''Modified at '' @ str_datetime (clock w (ticks w)) @ [CHR 0x0A]
       @ ''Additional data: '' @ str_int (fst (randint 1 1000000 w)) @ [CHR 0x0A])"
  by (simp add: modify_file_files update_conv')

lemma created_world_eq:
  "created_world = late_world\<lparr>draws := 2, ticks := 1,
     files := [(''file_1365.txt'', ''Content generated at 2025-09-30 17:02:14.456141'' @ [CHR 0x0A]
                 @ ''Random data: 86401'' @ [CHR 0x0A])]\<rparr>"
proof -
  have "files late_world = []" "draws late_world = 0" "ticks late_world = 0"
    "clock late_world 0 = 63894848534456141"
    by (simp_all add: late_world_def)
  then show ?thesis
    unfolding created_world_def create_file_eq late_randint_name late_randint_data
    by (simp add: str_int_1365 str_int_86401 str_datetime_sample)
qed

lemma created_randint: "fst (randint 1 1000000 created_world) = 86401"
  by (simp add: created_world_eq randint_def next_raw_def late_world_def)

lemma created_clock: "clock created_world (ticks created_world) = 63894848534456141"
  by (simp add: created_world_eq late_world_def)

lemma created_text: 
  "map_of (files created_world) (resolve ''file_1365.txt'') =
     Some (''Content generated at 2025-09-30 17:02:14.456141'' @ [CHR 0x0A]
           @ ''Random data: 86401'' @ [CHR 0x0A])"
  by (simp add: created_world_eq resolve_def)

text \<open>
  C4 (modify\_file adds two lines) fails on a file that \<open>create_file\<close> wrote. Its content
  ends with a line feed and the text that \<open>modify_file\<close> appends starts with one, so an
  empty line comes between: the two lines of the file become five, not four.
\<close>

theorem modify_created_file_adds_three_lines:
  "map_of (files created_world) (resolve ''file_1365.txt'') =
     Some (''Content generated at 2025-09-30 17:02:14.456141'' @ [CHR 0x0A]
           @ ''Random data: 86401'' @ [CHR 0x0A])
   \<and> map_of (files (snd (modify_file ''file_1365.txt'' created_world))) (resolve ''file_1365.txt'') =
     Some (''Content generated at 2025-09-30 17:02:14.456141'' @ [CHR 0x0A]
           @ ''Random data: 86401'' @ [CHR 0x0A] @ [CHR 0x0A]
           @ ''Modified at 2025-09-30 17:02:14.456141'' @ [CHR 0x0A]
           @ ''Additional data: 86401'' @ [CHR 0x0A])
   \<and> line_count (''Content generated at 2025-09-30 17:02:14.456141'' @ [CHR 0x0A]
           @ ''Random data: 86401'' @ [CHR 0x0A]) = 2
   \<and> line_count (''Content generated at 2025-09-30 17:02:14.456141'' @ [CHR 0x0A]
           @ ''Random data: 86401'' @ [CHR 0x0A] @ [CHR 0x0A]
           @ ''Modified at 2025-09-30 17:02:14.456141'' @ [CHR 0x0A]
           @ ''Additional data: 86401'' @ [CHR 0x0A]) = 5
   \<and> lines_of (''Content generated at 2025-09-30 17:02:14.456141'' @ [CHR 0x0A]
           @ ''Random data: 86401'' @ [CHR 0x0A] @ [CHR 0x0A]
           @ ''Modified at 2025-09-30 17:02:14.456141'' @ [CHR 0x0A]
           @ ''Additional data: 86401'' @ [CHR 0x0A]) =
       [''Content generated at 2025-09-30 17:02:14.456141'', ''Random data: 86401'', [],
        ''Modified at 2025-09-30 17:02:14.456141'', ''Additional data: 86401'']
   \<and> line_count (''Content generated at 2025-09-30 17:02:14.456141'' @ [CHR 0x0A]
           @ ''Random data: 86401'' @ [CHR 0x0A] @ [CHR 0x0A]
           @ ''Modified at 2025-09-30 17:02:14.456141'' @ [CHR 0x0A]
           @ ''Additional data: 86401'' @ [CHR 0x0A]) \<noteq>
       line_count (''Content generated at 2025-09-30 17:02:14.456141'' @ [CHR 0x0A]
           @ ''Random data: 86401'' @ [CHR 0x0A]) + 2"
proof -
  have m: "map_of (files (snd (modify_file ''file_1365.txt'' created_world))) (resolve ''file_1365.txt'') =
     Some (''Content generated at 2025-09-30 17:02:14.456141'' @ [CHR 0x0A]
           @ ''Random data: 86401'' @ [CHR 0x0A] @ [CHR 0x0A]
           @ ''Modified at 2025-09-30 17:02:14.456141'' @ [CHR 0x0A]
           @ ''Additional data: 86401'' @ [CHR 0x0A])"
    unfolding modify_file_content created_text created_randint created_clock
    by (simp add: str_int_86401 str_datetime_sample)
  have l: "lines_of (''Content generated at 2025-09-30 17:02:14.456141'' @ [CHR 0x0A]
           @ ''Random data: 86401'' @ [CHR 0x0A] @ [CHR 0x0A]
           @ ''Modified at 2025-09-30 17:02:14.456141'' @ [CHR 0x0A]
           @ ''Additional data: 86401'' @ [CHR 0x0A]) =
       [''Content generated at 2025-09-30 17:02:14.456141'', ''Random data: 86401'', [],
        ''Modified at 2025-09-30 17:02:14.456141'', ''Additional data: 86401'']"
    by (simp add: lines_of_def)
  have l2: "line_count (''Content generated at 2025-09-30 17:02:14.456141'' @ [CHR 0x0A]
           @ ''Random data: 86401'' @ [CHR 0x0A]) = 2"
    by (simp add: line_count_def lines_of_def)
  have l5: "line_count (''Content generated at 2025-09-30 17:02:14.456141'' @ [CHR 0x0A]
           @ ''Random data: 86401'' @ [CHR 0x0A] @ [CHR 0x0A]
           @ ''Modified at 2025-09-30 17:02:14.456141'' @ [CHR 0x0A]
           @ ''Additional data: 86401'' @ [CHR 0x0A]) = 5"
    unfolding line_count_def l by simp
  have ne: "line_count (''Content generated at 2025-09-30 17:02:14.456141'' @ [CHR 0x0A]
           @ ''Random data: 86401'' @ [CHR 0x0A] @ [CHR 0x0A]
           @ ''Modified at 2025-09-30 17:02:14.456141'' @ [CHR 0x0A]
           @ ''Additional data: 86401'' @ [CHR 0x0A]) \<noteq>
       line_count (''Content generated at 2025-09-30 17:02:14.456141'' @ [CHR 0x0A]
           @ ''Random data: 86401'' @ [CHR 0x0A]) + 2"
    unfolding l2 l5 by simp
  show ?thesis
    using created_text m l l2 l5 ne by (intro conjI)
qed

text \<open>
  C4 as the code has it: for a file that exists, \<open>modify_file\<close> returns the file name and
  appends a line feed, the line \<open>Modified at\<close> with the reading of the clock and the line
  \<open>Additional data:\<close> with the draw from 1 to 1000000, each ended by a line feed. The old
  content is a prefix of the new content. The number of lines grows by 2 when the old
  content is not empty and does not end with a line feed, and by 3 (an empty line first)
  when it is empty or ends with a line feed.
\<close>

theorem modify_file_appends:
  assumes "map_of (files w) (resolve filename) = Some old"
  shows "(let stamp = ''Modified at '' @ str_datetime (clock w (ticks w));
              payload = ''Additional data: '' @ str_int (fst (randint 1 1000000 w));
              new = old @ [CHR 0x0A] @ stamp @ [CHR 0x0A] @ payload @ [CHR 0x0A]
          in modify_file filename w = (filename, snd (modify_file filename w))
             \<and> map_of (files (snd (modify_file filename w))) (resolve filename) = Some new
             \<and> prefix old new
             \<and> lines_of ([CHR 0x0A] @ stamp @ [CHR 0x0A] @ payload @ [CHR 0x0A]) = [[], stamp, payload]
             \<and> line_count new = line_count old + (if old = [] \<or> last old = CHR 0x0A then 3 else 2))"
proof -
  let ?stamp = "''Modified at '' @ str_datetime (clock w (ticks w))"
  let ?payload = "''Additional data: '' @ str_int (fst (randint 1 1000000 w))"
  have s: "CHR 0x0A \<notin> set ?stamp" by (simp add: str_datetime_no_newline)
  have p: "CHR 0x0A \<notin> set ?payload" by (simp add: str_int_no_newline)
  have ret: "modify_file filename w = (filename, snd (modify_file filename w))"
    using modify_file_fst [of filename w] by (cases "modify_file filename w") simp
  have new: "map_of (files (snd (modify_file filename w))) (resolve filename) =
      Some (old @ [CHR 0x0A] @ ?stamp @ [CHR 0x0A] @ ?payload @ [CHR 0x0A])"
    unfolding modify_file_content assms by simp
  have ls: "lines_of ([CHR 0x0A] @ ?stamp @ [CHR 0x0A] @ ?payload @ [CHR 0x0A]) = [[], ?stamp, ?payload]"
    using two_lines [OF s p] by (simp add: lines_of_def)
  have lc: "line_count (old @ [CHR 0x0A] @ ?stamp @ [CHR 0x0A] @ ?payload @ [CHR 0x0A]) =
      line_count old + (if old = [] \<or> last old = CHR 0x0A then 3 else 2)"
    using s p by (rule line_count_appended)
  show ?thesis
    unfolding Let_def using ret new ls lc by (intro conjI) simp_all
qed


lemma five_randint: "fst (randint 1 1000000 five_world) = 1"
  by (simp add: randint_def next_raw_def five_world_def)

lemma five_clock: "clock five_world (ticks five_world) = 63894848534456141"
  by (simp add: five_world_def)



lemma str_int_1: "str_int 1 = ''1''"
  by (simp add: eval_str)


text \<open>
  The file \<open>a.txt\<close> of the tree of five files holds \<open>a\<close> without a line feed: its one
  line becomes three.
\<close>

theorem modify_file_appends_witness:
  "map_of (files five_world) (resolve ''./a.txt'') = Some ''a''
   \<and> modify_file ''./a.txt'' five_world = (''./a.txt'', snd (modify_file ''./a.txt'' five_world))
   \<and> map_of (files (snd (modify_file ''./a.txt'' five_world))) (resolve ''./a.txt'') =
       Some (''a'' @ [CHR 0x0A] @ ''Modified at 2025-09-30 17:02:14.456141'' @ [CHR 0x0A]
             @ ''Additional data: 1'' @ [CHR 0x0A])
   \<and> prefix ''a'' (''a'' @ [CHR 0x0A] @ ''Modified at 2025-09-30 17:02:14.456141'' @ [CHR 0x0A]
             @ ''Additional data: 1'' @ [CHR 0x0A])
   \<and> line_count ''a'' = 1
   \<and> line_count (''a'' @ [CHR 0x0A] @ ''Modified at 2025-09-30 17:02:14.456141'' @ [CHR 0x0A]
             @ ''Additional data: 1'' @ [CHR 0x0A]) = 3"
proof -
  have old: "map_of (files five_world) (resolve ''./a.txt'') = Some ''a''"
    by (simp add: five_world_def resolve_def)
  have one: "line_count ''a'' = 1"
    by (simp add: line_count_def lines_of_def)
  show ?thesis
    using modify_file_appends [OF old] old one
    unfolding Let_def five_randint five_clock str_int_1 str_datetime_sample
    by (elim conjE) simp
qed




end
